theory Spec2Isabelle
  imports Main
begin

section \<open>The SQL composition values of \<open>psycopg2.sql\<close>\<close>

text \<open>
  \<open>select.py\<close> builds every fragment with the classes of \<open>psycopg2.sql\<close>:
  \<open>sql.SQL\<close> (raw text, emitted as it is), \<open>sql.Identifier\<close> (one or more names,
  each quoted, joined by a dot), \<open>sql.Literal\<close> (a value written into the statement
  through the driver's adaptation), \<open>sql.Placeholder\<close> (the positional marker
  \<open>%s\<close>, whose value travels in the parameter list) and \<open>sql.Composed\<close> (a sequence
  of the former). The type parameter \<open>'v\<close> is the type of Python values that are bound
  or written as literals.
\<close>

datatype 'v composable =
    SQL string
  | Identifier "string list"
  | Literal 'v
  | Placeholder
  | Composed "'v composable list"

text \<open>\<open>quote_ident\<close>: the name between double quotes, every double quote inside doubled.\<close>

definition quote_ident :: "string \<Rightarrow> string" where
  "quote_ident name =
     ''\"'' @ concat (map (\<lambda>c. if c = CHR ''\"'' then ''\"\"'' else [c]) name) @ ''\"''"

text \<open>\<open>str.join\<close> on a list of strings.\<close>

fun str_join :: "string \<Rightarrow> string list \<Rightarrow> string" where
  "str_join sep [] = []"
| "str_join sep [x] = x"
| "str_join sep (x # y # ys) = x @ sep @ str_join sep (y # ys)"

text \<open>
  \<open>Composable.as_string\<close>. The adaptation of a Python value to the text of an SQL
  literal belongs to the driver and its connection; it is the parameter \<open>adapt\<close>.
\<close>

fun as_string :: "('v \<Rightarrow> string) \<Rightarrow> 'v composable \<Rightarrow> string" where
  "as_string adapt (SQL s) = s"
| "as_string adapt (Identifier names) = str_join ''.'' (map quote_ident names)"
| "as_string adapt (Literal v) = adapt v"
| "as_string adapt Placeholder = ''%s''"
| "as_string adapt (Composed cs) = concat (map (as_string adapt) cs)"

text \<open>
  \<open>SQL.join(seq)\<close>: the elements of \<open>seq\<close> with the joiner between every two of
  them, as one \<open>Composed\<close>.
\<close>

fun interleave :: "'a \<Rightarrow> 'a list \<Rightarrow> 'a list" where
  "interleave j [] = []"
| "interleave j [x] = [x]"
| "interleave j (x # y # ys) = x # j # interleave j (y # ys)"

definition sql_join :: "'v composable \<Rightarrow> 'v composable list \<Rightarrow> 'v composable" where
  "sql_join joiner seq = Composed (interleave joiner seq)"

text \<open>
  The adaptation of a Python \<open>int\<close>: its decimal digits, and a space in front of a
  negative number (so that \<open>- -1\<close> never becomes a comment marker).
\<close>

definition digit_char :: "nat \<Rightarrow> char" where
  "digit_char d = char_of (48 + d)"

fun str_nat :: "nat \<Rightarrow> string" where
  "str_nat n = (if n < 10 then [digit_char n] else str_nat (n div 10) @ [digit_char (n mod 10)])"

definition adapt_int :: "int \<Rightarrow> string" where
  "adapt_int i = (if i < 0 then '' -'' @ str_nat (nat (- i)) else str_nat (nat i))"

section \<open>The filter tree\<close>

text \<open>
  What can go wrong: the filter constructor refuses its arguments, or the driver
  refuses the statement when it merges the parameters (a marker with no parameter
  left, a parameter with no marker left, a \<open>%\<close> that starts no marker).
\<close>

datatype error = InvalidFilter | Too_few_params | Too_many_params | Bad_marker

datatype bool_op = AND_op | OR_op

text \<open>
  Modelled from the spec: the class \<open>Where\<close> (\<open>query_builder/where.py\<close>), which
  \<open>select.py\<close> imports and whose source is not among the files verified here. The
  spec, section 4.2: a node is a leaf (table, column, operator, value) or a composite (left node,
  AND or OR, right node); \<open>and(other)\<close>/\<open>or(other)\<close> return a new composite and
  mutate neither operand; rendering a leaf gives \<open>table.column operator placeholder\<close>
  and binds the value, \<open>IS NULL\<close>/\<open>IS NOT NULL\<close> render without a placeholder, and a
  composite renders left, operator, right, wrapped in parentheses. The value of a leaf
  is \<open>None\<close> exactly for the leaves that bind nothing.
\<close>

datatype 'v where_node =
    Leaf string string string "'v option"
  | Composite "'v where_node" bool_op "'v where_node"

text \<open>The keyword arguments of a filter call; a key that was not passed is \<open>None\<close>.\<close>

record 'v where_kwargs =
  kw_table :: "string option"
  kw_column :: "string option"
  kw_operator :: "string option"
  kw_value :: "'v option"

definition is_null_check :: "string \<Rightarrow> bool" where
  "is_null_check operator \<longleftrightarrow> operator = ''IS NULL'' \<or> operator = ''IS NOT NULL''"

text \<open>
  Modelled from the spec: the constructor \<open>Where(where, **kwargs)\<close>, sections 4.2, 7
  and 9: a node is built from an existing node or from an explicit field set; an
  operator that needs a value without one, or a value given to a null check, signals
  \<open>InvalidFilter\<close>. A field set without table, column or operator builds no leaf.
\<close>

definition Where_init :: "'v where_node option \<Rightarrow> 'v where_kwargs \<Rightarrow> error + 'v where_node" where
  "Where_init where_arg kwargs =
     (case where_arg of
        Some w \<Rightarrow> Inr w
      | None \<Rightarrow>
          (case (kw_table kwargs, kw_column kwargs, kw_operator kwargs) of
             (Some t, Some c, Some operator) \<Rightarrow>
               (if is_null_check operator
                then (case kw_value kwargs of
                        None \<Rightarrow> Inr (Leaf t c operator None)
                      | Some v \<Rightarrow> Inl InvalidFilter)
                else (case kw_value kwargs of
                        None \<Rightarrow> Inl InvalidFilter
                      | Some v \<Rightarrow> Inr (Leaf t c operator (Some v))))
           | _ \<Rightarrow> Inl InvalidFilter))"

text \<open>
  Modelled from the spec: \<open>Where.sql_and\<close> and \<open>Where.sql_or\<close>, section 4.2: a new
  composite of \<open>self\<close> and \<open>other\<close>; neither operand is changed.
\<close>

definition Where_sql_and :: "'v where_node \<Rightarrow> 'v where_node \<Rightarrow> 'v where_node" where
  "Where_sql_and self other = Composite self AND_op other"

definition Where_sql_or :: "'v where_node \<Rightarrow> 'v where_node \<Rightarrow> 'v where_node" where
  "Where_sql_or self other = Composite self OR_op other"

text \<open>
  Modelled from the spec: the properties \<open>Where.sql\<close> and \<open>Where.params\<close>, section
  4.2: the rendered fragment, and the bound values in the order their placeholders are
  rendered.
\<close>

fun bool_op_sql :: "bool_op \<Rightarrow> string" where
  "bool_op_sql AND_op = '' AND ''"
| "bool_op_sql OR_op = '' OR ''"

fun Where_sql :: "'v where_node \<Rightarrow> 'v composable" where
  "Where_sql (Leaf t c operator None) =
     Composed [Identifier [t, c], SQL '' '', SQL operator]"
| "Where_sql (Leaf t c operator (Some v)) =
     Composed [Identifier [t, c], SQL '' '', SQL operator, SQL '' '', Placeholder]"
| "Where_sql (Composite l b r) =
     Composed [SQL ''('', Where_sql l, SQL (bool_op_sql b), Where_sql r, SQL '')'']"

fun Where_params :: "'v where_node \<Rightarrow> 'v list" where
  "Where_params (Leaf t c operator None) = []"
| "Where_params (Leaf t c operator (Some v)) = [v]"
| "Where_params (Composite l b r) = Where_params l @ Where_params r"

section \<open>The join specification\<close>

text \<open>
  Modelled from the spec: the class \<open>Join\<close> (\<open>query_builder/join.py\<close>), imported by
  \<open>select.py\<close>, source not among the files verified here. The spec, sections 3
  and 4.3: an ordered sequence of (table, on-condition) entries; \<open>join\<close> given another join spec
  concatenates its entries onto self, given raw parts builds one entry and appends it;
  \<open>tables\<close> are the table names in entry order; rendering gives
  \<open>JOIN table ON condition\<close> per entry, in append order, separated by spaces.
\<close>

record 'v join_entry =
  je_table :: string
  je_on :: "'v composable"

record 'v join_spec =
  entries :: "'v join_entry list"

text \<open>A join is given as a \<open>Join\<close> object or as the keyword arguments of one entry.\<close>

datatype 'v join_arg = Join_object "'v join_spec" | Join_kwargs "'v join_entry"

text \<open>
  Modelled from the spec: the constructor \<open>Join(join, **kwargs)\<close> and the method
  \<open>Join.join\<close>, section 4.3: entries are appended in order, never merged or sorted.
\<close>

fun Join_init :: "'v join_arg \<Rightarrow> 'v join_spec" where
  "Join_init (Join_object j) = \<lparr>entries = entries j\<rparr>"
| "Join_init (Join_kwargs e) = \<lparr>entries = [e]\<rparr>"

fun Join_join :: "'v join_arg \<Rightarrow> 'v join_spec \<Rightarrow> 'v join_spec" where
  "Join_join (Join_object j) self = self\<lparr>entries := entries self @ entries j\<rparr>"
| "Join_join (Join_kwargs e) self = self\<lparr>entries := entries self @ [e]\<rparr>"

text \<open>
  Modelled from the spec: the properties \<open>Join.tables\<close> and \<open>Join.sql\<close>, section 4.3.
\<close>

definition Join_tables :: "'v join_spec \<Rightarrow> string list" where
  "Join_tables self = map je_table (entries self)"

definition join_entry_sql :: "'v join_entry \<Rightarrow> 'v composable" where
  "join_entry_sql e = Composed [SQL ''JOIN '', Identifier [je_table e], SQL '' ON '', je_on e]"

definition Join_sql :: "'v join_spec \<Rightarrow> 'v composable" where
  "Join_sql self = sql_join (SQL '' '') (map join_entry_sql (entries self))"

section \<open>The column catalog\<close>

text \<open>
  The configuration \<open>pg_config\<close> is used by \<open>to_sql\<close> only to look up the columns of
  a table; it is modelled as that catalog.
\<close>

type_synonym postgres_config = "string \<Rightarrow> string list"

text \<open>
  Modelled from the spec: \<open>get_columns_composed\<close> (\<open>query_builder/utilities.py\<close>),
  source not among the files verified here. The spec, section 6: the ordered list of
  fully-qualified column identifiers of a table. The \<open>Composed\<close> it returns is
  represented by the sequence it wraps; \<open>+\<close> on two \<open>Composed\<close> concatenates the
  sequences and \<open>Composed.join(s)\<close> is \<open>SQL(s).join\<close> of the sequence.
\<close>

definition get_columns_composed :: "string \<Rightarrow> postgres_config \<Rightarrow> 'v composable list" where
  "get_columns_composed table_name pg_config =
     map (\<lambda>c. Identifier [table_name, c]) (pg_config table_name)"

section \<open>The query builder \<open>Select\<close>\<close>

text \<open>
  The fields of the class, in the order \<open>__init__\<close> sets them. A Python field
  \<open>self._x\<close> is the record field \<open>self_x\<close>; \<open>None\<close> is \<open>None\<close>.
\<close>

record 'v select =
  self_table_name :: string
  self_distinct :: "'v composable option"
  self_join :: "'v join_spec option"
  self_where :: "'v where_node option"
  self_order_by :: "'v composable option"
  self_limit :: "'v composable option"
  self_offset :: "'v composable option"
  self_group_by :: "'v composable option"

definition Select_init :: "string \<Rightarrow> 'v select" where
  "Select_init table_name =
     \<lparr>self_table_name = table_name, self_distinct = None, self_join = None,
      self_where = None, self_order_by = None, self_limit = None, self_offset = None,
      self_group_by = None\<rparr>"

definition Select_table_name :: "'v select \<Rightarrow> string" where
  "Select_table_name self = self_table_name self"

text \<open>
  \<open>sql.SQL(template).format(args)\<close> cuts the template at its \<open>{}\<close> fields and returns
  the \<open>Composed\<close> of the text pieces and the arguments in template order; an empty
  text piece is left out. The templates of \<open>select.py\<close> are constants, so each
  \<open>format\<close> is written as the \<open>Composed\<close> it returns.
\<close>

definition Select_join :: "'v join_arg \<Rightarrow> 'v select \<Rightarrow> 'v select" where
  "Select_join arg self =
     (case self_join self of
        None \<Rightarrow> self\<lparr>self_join := Some (Join_init arg)\<rparr>
      | Some j \<Rightarrow> self\<lparr>self_join := Some (Join_join arg j)\<rparr>)"

definition Select_get_join :: "'v select \<Rightarrow> 'v join_spec option" where
  "Select_get_join self = self_join self"

text \<open>\<open>if "table" not in kwargs: kwargs["table"] = self._table_name\<close>\<close>

definition default_table :: "'v select \<Rightarrow> 'v where_kwargs \<Rightarrow> 'v where_kwargs" where
  "default_table self kwargs =
     (if kw_table kwargs = None then kwargs\<lparr>kw_table := Some (self_table_name self)\<rparr>
      else kwargs)"

definition no_kwargs :: "'v where_kwargs" where
  "no_kwargs = \<lparr>kw_table = None, kw_column = None, kw_operator = None, kw_value = None\<rparr>"

definition Select_where_and ::
  "'v where_node option \<Rightarrow> 'v where_kwargs \<Rightarrow> 'v select \<Rightarrow> error + 'v select" where
  "Select_where_and where_arg kwargs self =
     (case Where_init where_arg (default_table self kwargs) of
        Inl e \<Rightarrow> Inl e
      | Inr w \<Rightarrow>
          (case self_where self of
             None \<Rightarrow> Inr (self\<lparr>self_where := Some w\<rparr>)
           | Some root \<Rightarrow> Inr (self\<lparr>self_where := Some (Where_sql_and root w)\<rparr>)))"

definition Select_where_or ::
  "'v where_node option \<Rightarrow> 'v where_kwargs \<Rightarrow> 'v select \<Rightarrow> error + 'v select" where
  "Select_where_or where_arg kwargs self =
     (case Where_init where_arg (default_table self kwargs) of
        Inl e \<Rightarrow> Inl e
      | Inr w \<Rightarrow>
          (case self_where self of
             None \<Rightarrow> Inr (self\<lparr>self_where := Some w\<rparr>)
           | Some root \<Rightarrow> Inr (self\<lparr>self_where := Some (Where_sql_or root w)\<rparr>)))"

text \<open>
  With a filter present, \<open>where\<close> builds the node and hands it to \<open>where_and\<close> as its
  \<open>where\<close> argument, with no keyword arguments.
\<close>

definition Select_where ::
  "'v where_node option \<Rightarrow> 'v where_kwargs \<Rightarrow> 'v select \<Rightarrow> error + 'v select" where
  "Select_where where_arg kwargs self =
     (case self_where self of
        None \<Rightarrow>
          (case Where_init where_arg (default_table self kwargs) of
             Inl e \<Rightarrow> Inl e
           | Inr w \<Rightarrow> Inr (self\<lparr>self_where := Some w\<rparr>))
      | Some root \<Rightarrow>
          (case Where_init where_arg (default_table self kwargs) of
             Inl e \<Rightarrow> Inl e
           | Inr w \<Rightarrow> Select_where_and (Some w) no_kwargs self))"

text \<open>
  \<open>table=None\<close> is \<open>None\<close>; the direction is \<open>None\<close> when the caller leaves it to the
  default \<open>"ASC"\<close>.
\<close>

definition Select_order_by ::
  "string \<Rightarrow> string option \<Rightarrow> string option \<Rightarrow> 'v select \<Rightarrow> 'v select" where
  "Select_order_by column table direction self =
     self\<lparr>self_order_by := Some (Composed
       [SQL ''ORDER BY '',
        Identifier [case table of None \<Rightarrow> self_table_name self | Some t \<Rightarrow> t],
        SQL ''.'',
        Identifier [column],
        SQL '' '',
        SQL (case direction of None \<Rightarrow> ''ASC'' | Some d \<Rightarrow> d)])\<rparr>"

text \<open>
  \<open>distinct\<close> takes one column name (a \<open>str\<close>) or a collection of column names. Its
  \<open>print\<close> writes to standard output and touches no field; it is not modelled.
\<close>

datatype distinct_arg = Column string | Columns "string list"

fun Select_distinct :: "distinct_arg \<Rightarrow> 'v select \<Rightarrow> 'v select" where
  "Select_distinct (Column c) self =
     self\<lparr>self_distinct := Some (Composed [SQL ''DISTINCT '', Identifier [c]])\<rparr>"
| "Select_distinct (Columns cs) self =
     self\<lparr>self_distinct := Some (Composed
       [SQL ''DISTINCT '', sql_join (SQL '', '') (map (\<lambda>c. Identifier [c]) cs)])\<rparr>"

definition Select_order_by_sql :: "'v select \<Rightarrow> 'v composable" where
  "Select_order_by_sql self =
     (case self_order_by self of None \<Rightarrow> SQL '''' | Some c \<Rightarrow> c)"

definition Select_limit :: "'v \<Rightarrow> 'v select \<Rightarrow> 'v select" where
  "Select_limit limit self =
     self\<lparr>self_limit := Some (Composed [SQL ''LIMIT '', Literal limit])\<rparr>"

definition Select_limit_sql :: "'v select \<Rightarrow> 'v composable" where
  "Select_limit_sql self =
     (case self_limit self of None \<Rightarrow> SQL '''' | Some c \<Rightarrow> c)"

definition Select_offset :: "'v \<Rightarrow> 'v select \<Rightarrow> 'v select" where
  "Select_offset offset self =
     self\<lparr>self_offset := Some (Composed [SQL ''OFFSET '', Literal offset])\<rparr>"

definition Select_offset_sql :: "'v select \<Rightarrow> 'v composable" where
  "Select_offset_sql self =
     (case self_offset self of None \<Rightarrow> SQL '''' | Some c \<Rightarrow> c)"

definition Select_group_by :: "string \<Rightarrow> string option \<Rightarrow> 'v select \<Rightarrow> 'v select" where
  "Select_group_by column table self =
     self\<lparr>self_group_by := Some (Composed
       [SQL ''GROUP BY '',
        Identifier [case table of None \<Rightarrow> self_table_name self | Some t \<Rightarrow> t],
        SQL ''.'',
        Identifier [column]])\<rparr>"

definition Select_group_by_sql :: "'v select \<Rightarrow> 'v composable" where
  "Select_group_by_sql self =
     (case self_group_by self of None \<Rightarrow> SQL '''' | Some c \<Rightarrow> c)"

text \<open>
  The local variable \<open>columns\<close> of \<open>to_sql\<close>: the base table's columns, and behind
  them the columns of every joined table, one \<open>+\<close> per table of \<open>join.tables\<close>.
\<close>

definition to_sql_columns :: "postgres_config \<Rightarrow> 'v select \<Rightarrow> 'v composable list" where
  "to_sql_columns pg_config self =
     (case Select_get_join self of
        None \<Rightarrow> get_columns_composed (Select_table_name self) pg_config
      | Some join \<Rightarrow>
          foldl (\<lambda>columns t. columns @ get_columns_composed t pg_config)
            (get_columns_composed (Select_table_name self) pg_config)
            (Join_tables join))"

definition to_sql_join :: "'v select \<Rightarrow> 'v composable" where
  "to_sql_join self =
     (case Select_get_join self of None \<Rightarrow> SQL '''' | Some join \<Rightarrow> Join_sql join)"

definition to_sql_where :: "'v select \<Rightarrow> 'v composable" where
  "to_sql_where self =
     (case self_where self of
        None \<Rightarrow> SQL ''''
      | Some w \<Rightarrow> Composed [SQL '' WHERE '', Where_sql w])"

definition Select_to_sql :: "postgres_config \<Rightarrow> 'v select \<Rightarrow> 'v composable" where
  "Select_to_sql pg_config self =
     Composed
       [SQL ''SELECT '',
        (case self_distinct self of
           None \<Rightarrow> sql_join (SQL '','') (to_sql_columns pg_config self)
         | Some d \<Rightarrow> d),
        SQL '' FROM '',
        Identifier [Select_table_name self],
        SQL '' '',
        to_sql_join self,
        SQL '' '',
        to_sql_where self,
        SQL '' '',
        Select_order_by_sql self,
        SQL '' '',
        Select_group_by_sql self,
        SQL '' '',
        Select_offset_sql self,
        SQL '' '',
        Select_limit_sql self]"

definition Select_get_params :: "'v select \<Rightarrow> 'v list" where
  "Select_get_params self =
     (case self_where self of None \<Rightarrow> [] | Some w \<Rightarrow> Where_params w)"

section \<open>Calls on a builder\<close>

text \<open>
  The public methods of \<open>Select\<close> as values, so that a sequence of calls on one
  builder can be stated. Every mutator returns \<open>self\<close>; \<open>to_sql\<close> returns the
  command and \<open>get_params\<close> the parameter list. A call that raises ends the sequence.
\<close>

datatype 'v method_call =
    Call_join "'v join_arg"
  | Call_where "'v where_node option" "'v where_kwargs"
  | Call_where_and "'v where_node option" "'v where_kwargs"
  | Call_where_or "'v where_node option" "'v where_kwargs"
  | Call_order_by string "string option" "string option"
  | Call_distinct distinct_arg
  | Call_limit 'v
  | Call_offset 'v
  | Call_group_by string "string option"
  | Call_to_sql postgres_config
  | Call_get_params

datatype 'v returned = Self | Command "'v composable" | Params "'v list"

fun then_self :: "error + 'v select \<Rightarrow> error + ('v returned \<times> 'v select)" where
  "then_self (Inl e) = Inl e"
| "then_self (Inr s) = Inr (Self, s)"

fun call :: "'v method_call \<Rightarrow> 'v select \<Rightarrow> error + ('v returned \<times> 'v select)" where
  "call (Call_join arg) self = Inr (Self, Select_join arg self)"
| "call (Call_where w kwargs) self = then_self (Select_where w kwargs self)"
| "call (Call_where_and w kwargs) self = then_self (Select_where_and w kwargs self)"
| "call (Call_where_or w kwargs) self = then_self (Select_where_or w kwargs self)"
| "call (Call_order_by column table direction) self =
     Inr (Self, Select_order_by column table direction self)"
| "call (Call_distinct columns) self = Inr (Self, Select_distinct columns self)"
| "call (Call_limit limit) self = Inr (Self, Select_limit limit self)"
| "call (Call_offset offset) self = Inr (Self, Select_offset offset self)"
| "call (Call_group_by column table) self = Inr (Self, Select_group_by column table self)"
| "call (Call_to_sql pg_config) self = Inr (Command (Select_to_sql pg_config self), self)"
| "call Call_get_params self = Inr (Params (Select_get_params self), self)"

text \<open>The builder after a sequence of calls, and what each call returned.\<close>

fun calls :: "'v method_call list \<Rightarrow> 'v select \<Rightarrow> error + ('v returned list \<times> 'v select)" where
  "calls [] self = Inr ([], self)"
| "calls (c # cs) self =
     (case call c self of
        Inl e \<Rightarrow> Inl e
      | Inr (r, self') \<Rightarrow>
          (case calls cs self' of
             Inl e \<Rightarrow> Inl e
           | Inr (rs, self'') \<Rightarrow> Inr (r # rs, self'')))"

fun is_render :: "'v method_call \<Rightarrow> bool" where
  "is_render (Call_to_sql pg_config) = True"
| "is_render Call_get_params = True"
| "is_render c = False"

section \<open>Merging the parameters into the statement\<close>

text \<open>
  \<open>cursor.execute(command, params)\<close> renders the command to text and merges the
  elements of \<open>params\<close> into the markers of that text from left to right. The driver
  reads the text, not the composed value: every \<open>%\<close> of it starts a marker, wherever
  it comes from. \<open>%s\<close> takes the next parameter, adapted like a literal; \<open>%%\<close> is one
  percent sign; a marker with no parameter left, a parameter with no marker left, and
  every other character behind a \<open>%\<close> end in an error (the named and the binary
  marker of the driver are not modelled apart from that).
\<close>

fun then_prepend :: "string \<Rightarrow> error + string \<Rightarrow> error + string" where
  "then_prepend text (Inl e) = Inl e"
| "then_prepend text (Inr rest) = Inr (text @ rest)"

fun merge_params :: "('v \<Rightarrow> string) \<Rightarrow> string \<Rightarrow> 'v list \<Rightarrow> error + string" where
  "merge_params adapt [] ps = (if ps = [] then Inr [] else Inl Too_many_params)"
| "merge_params adapt (c # cs) ps =
     (if c \<noteq> CHR ''%'' then then_prepend [c] (merge_params adapt cs ps)
      else (case cs of
              [] \<Rightarrow> Inl Bad_marker
            | d # ds \<Rightarrow>
                if d = CHR ''%'' then then_prepend ''%'' (merge_params adapt ds ps)
                else if d = CHR ''s'' then
                  (case ps of
                     [] \<Rightarrow> Inl Too_few_params
                   | p # ps' \<Rightarrow> then_prepend (adapt p) (merge_params adapt ds ps'))
                else Inl Bad_marker))"

text \<open>The number of \<open>%s\<close> markers the driver finds in a text.\<close>

fun count_markers :: "string \<Rightarrow> nat" where
  "count_markers [] = 0"
| "count_markers (c # cs) =
     (if c \<noteq> CHR ''%'' then count_markers cs
      else (case cs of
              [] \<Rightarrow> 0
            | d # ds \<Rightarrow> if d = CHR ''s'' then Suc (count_markers ds) else count_markers ds))"

text \<open>
  The statement \<open>execute\<close> sends: with a non-empty parameter list
  \<open>cursor.execute(command, params)\<close>, which merges the parameters in; with an empty
  one \<open>cursor.execute(command)\<close>, which sends the text as it is.
\<close>

definition Select_execute_query ::
  "('v \<Rightarrow> string) \<Rightarrow> postgres_config \<Rightarrow> 'v select \<Rightarrow> error + string" where
  "Select_execute_query adapt pg_config self =
     (if Select_get_params self \<noteq> []
      then merge_params adapt (as_string adapt (Select_to_sql pg_config self))
             (Select_get_params self)
      else Inr (as_string adapt (Select_to_sql pg_config self)))"

text \<open>
  The filter fragment with the value of every leaf written at the leaf itself: what
  the rendered fragment has to become once the parameters are merged in.
\<close>

fun Where_sql_with_values :: "'v where_node \<Rightarrow> 'v composable" where
  "Where_sql_with_values (Leaf t c operator None) =
     Composed [Identifier [t, c], SQL '' '', SQL operator]"
| "Where_sql_with_values (Leaf t c operator (Some v)) =
     Composed [Identifier [t, c], SQL '' '', SQL operator, SQL '' '', Literal v]"
| "Where_sql_with_values (Composite l b r) =
     Composed [SQL ''('', Where_sql_with_values l, SQL (bool_op_sql b),
               Where_sql_with_values r, SQL '')'']"

text \<open>The entries a \<open>join\<close> call brings.\<close>

definition join_arg_entries :: "'v join_arg \<Rightarrow> 'v join_entry list" where
  "join_arg_entries arg = (case arg of Join_object j \<Rightarrow> entries j | Join_kwargs e \<Rightarrow> [e])"

section \<open>Notions used to state the properties\<close>

text \<open>The calls that set each optional part of the statement.\<close>

fun sets_join :: "'v method_call \<Rightarrow> bool" where
  "sets_join (Call_join arg) = True"
| "sets_join c = False"

fun sets_where :: "'v method_call \<Rightarrow> bool" where
  "sets_where (Call_where w kwargs) = True"
| "sets_where (Call_where_and w kwargs) = True"
| "sets_where (Call_where_or w kwargs) = True"
| "sets_where c = False"

fun sets_order_by :: "'v method_call \<Rightarrow> bool" where
  "sets_order_by (Call_order_by column table direction) = True"
| "sets_order_by c = False"

fun sets_group_by :: "'v method_call \<Rightarrow> bool" where
  "sets_group_by (Call_group_by column table) = True"
| "sets_group_by c = False"

fun sets_offset :: "'v method_call \<Rightarrow> bool" where
  "sets_offset (Call_offset offset) = True"
| "sets_offset c = False"

fun sets_limit :: "'v method_call \<Rightarrow> bool" where
  "sets_limit (Call_limit limit) = True"
| "sets_limit c = False"

text \<open>The argument of the last \<open>distinct\<close> call of a sequence, if there is one.\<close>

fun last_distinct :: "'v method_call list \<Rightarrow> distinct_arg option" where
  "last_distinct [] = None"
| "last_distinct (Call_distinct columns # cs) =
     (case last_distinct cs of None \<Rightarrow> Some columns | Some later \<Rightarrow> Some later)"
| "last_distinct (c # cs) = last_distinct cs"

text \<open>The text of the columns a \<open>distinct\<close> call names.\<close>

fun distinct_columns_text :: "distinct_arg \<Rightarrow> string" where
  "distinct_columns_text (Column c) = quote_ident c"
| "distinct_columns_text (Columns cs) = str_join '', '' (map quote_ident cs)"

text \<open>
  \<open>grown_from root' root\<close>: the tree \<open>root'\<close> is \<open>root\<close>, or a chain of composites
  whose innermost left operand is \<open>root\<close>.
\<close>

fun grown_from :: "'v where_node \<Rightarrow> 'v where_node \<Rightarrow> bool" where
  "grown_from (Leaf t c operator v) root = (Leaf t c operator v = root)"
| "grown_from (Composite l b r) root = (Composite l b r = root \<or> grown_from l root)"

text \<open>
  The condition a filter call added last: the tree itself when it is a leaf, the right
  operand of the root when it is a composite.
\<close>

fun last_condition :: "'v where_node \<Rightarrow> 'v where_node" where
  "last_condition (Leaf t c operator v) = Leaf t c operator v"
| "last_condition (Composite l b r) = r"

text \<open>The final builder of a sequence of calls.\<close>

definition final_state :: "error + ('v returned list \<times> 'v select) \<Rightarrow> error + 'v select" where
  "final_state result = map_sum id snd result"

text \<open>The text of the columns of a table, each qualified by the table.\<close>

definition qualified_columns :: "postgres_config \<Rightarrow> string \<Rightarrow> string list" where
  "qualified_columns pg_config t =
     map (\<lambda>c. quote_ident t @ ''.'' @ quote_ident c) (pg_config t)"

text \<open>
  The text of the parts of a statement, read from the fields of the builder: an
  optional clause, the join, the filter and the projection.
\<close>

definition clause_text :: "('v \<Rightarrow> string) \<Rightarrow> 'v composable option \<Rightarrow> string" where
  "clause_text adapt clause = (case clause of None \<Rightarrow> '''' | Some c \<Rightarrow> as_string adapt c)"

definition join_text :: "('v \<Rightarrow> string) \<Rightarrow> 'v select \<Rightarrow> string" where
  "join_text adapt self =
     (case self_join self of None \<Rightarrow> '''' | Some j \<Rightarrow> as_string adapt (Join_sql j))"

definition where_text :: "('v \<Rightarrow> string) \<Rightarrow> 'v select \<Rightarrow> string" where
  "where_text adapt self =
     (case self_where self of
        None \<Rightarrow> ''''
      | Some w \<Rightarrow> '' WHERE '' @ as_string adapt (Where_sql w))"

definition projection_text :: "('v \<Rightarrow> string) \<Rightarrow> postgres_config \<Rightarrow> 'v select \<Rightarrow> string" where
  "projection_text adapt pg_config self =
     (case self_distinct self of
        None \<Rightarrow> str_join '','' (map (as_string adapt) (to_sql_columns pg_config self))
      | Some d \<Rightarrow> as_string adapt d)"

text \<open>
  A text without \<open>%\<close>; a filter tree none of whose table names, column names and
  operators holds a \<open>%\<close>; a builder whose statement holds no \<open>%\<close> in front of and
  behind the filter fragment.
\<close>

definition percent_free :: "string \<Rightarrow> bool" where
  "percent_free text \<longleftrightarrow> CHR ''%'' \<notin> set text"

fun percent_free_where :: "'v where_node \<Rightarrow> bool" where
  "percent_free_where (Leaf t c operator v) =
     (percent_free t \<and> percent_free c \<and> percent_free operator)"
| "percent_free_where (Composite l b r) = (percent_free_where l \<and> percent_free_where r)"

definition percent_free_around_where ::
  "('v \<Rightarrow> string) \<Rightarrow> postgres_config \<Rightarrow> 'v select \<Rightarrow> bool" where
  "percent_free_around_where adapt pg_config self \<longleftrightarrow>
     percent_free (projection_text adapt pg_config self)
     \<and> percent_free (self_table_name self)
     \<and> percent_free (join_text adapt self)
     \<and> percent_free (clause_text adapt (self_order_by self))
     \<and> percent_free (clause_text adapt (self_group_by self))
     \<and> percent_free (clause_text adapt (self_offset self))
     \<and> percent_free (clause_text adapt (self_limit self))"

definition percent_free_filter :: "'v select \<Rightarrow> bool" where
  "percent_free_filter self =
     (case self_where self of None \<Rightarrow> True | Some w \<Rightarrow> percent_free_where w)"

text \<open>
  The statement of \<open>to_sql\<close> with the filter fragment replaced by the fragment that
  holds every leaf's own value: the statement the parameters are meant to produce.
\<close>

definition to_sql_where_with_values :: "'v select \<Rightarrow> 'v composable" where
  "to_sql_where_with_values self =
     (case self_where self of
        None \<Rightarrow> SQL ''''
      | Some w \<Rightarrow> Composed [SQL '' WHERE '', Where_sql_with_values w])"

definition Select_to_sql_with_values :: "postgres_config \<Rightarrow> 'v select \<Rightarrow> 'v composable" where
  "Select_to_sql_with_values pg_config self =
     Composed
       [SQL ''SELECT '',
        (case self_distinct self of
           None \<Rightarrow> sql_join (SQL '','') (to_sql_columns pg_config self)
         | Some d \<Rightarrow> d),
        SQL '' FROM '',
        Identifier [Select_table_name self],
        SQL '' '',
        to_sql_join self,
        SQL '' '',
        to_sql_where_with_values self,
        SQL '' '',
        Select_order_by_sql self,
        SQL '' '',
        Select_group_by_sql self,
        SQL '' '',
        Select_offset_sql self,
        SQL '' '',
        Select_limit_sql self]"

section \<open>The scenario of the specification\<close>

text \<open>
  A catalog with the columns \<open>id\<close> and \<open>name\<close> for the table \<open>users\<close>, and the
  builder \<open>Select("users").where(column="id", operator="=", value=5).limit(10)\<close>.
\<close>

definition users_catalog :: postgres_config where
  "users_catalog t = (if t = ''users'' then [''id'', ''name''] else [])"

text \<open>
  A catalog with three tables, and a builder with two joins:
  \<open>Select("users").join(table="orders", ...).join(table="items", ...)\<close>.
\<close>

definition shop_catalog :: postgres_config where
  "shop_catalog t =
     (if t = ''users'' then [''id'', ''name'']
      else if t = ''orders'' then [''id'', ''user_id'']
      else if t = ''items'' then [''order_id'', ''sku'']
      else [])"

definition shop_query :: "int select" where
  "shop_query =
     Select_join (Join_kwargs \<lparr>je_table = ''items'', je_on = SQL ''i''\<rparr>)
       (Select_join (Join_kwargs \<lparr>je_table = ''orders'', je_on = SQL ''o''\<rparr>)
          (Select_init ''users''))"

text \<open>
  A sequence of calls with two filter calls, a join and a limit, and the builder they
  make from \<open>Select("users")\<close>.
\<close>

definition shop_calls :: "int method_call list" where
  "shop_calls =
     [Call_where None
        \<lparr>kw_table = None, kw_column = Some ''id'', kw_operator = Some ''='', kw_value = Some 5\<rparr>,
      Call_join (Join_kwargs \<lparr>je_table = ''orders'', je_on = SQL ''o''\<rparr>),
      Call_where_or None
        \<lparr>kw_table = Some ''orders'', kw_column = Some ''user_id'', kw_operator = Some ''>'',
         kw_value = Some 18\<rparr>,
      Call_limit 10]"

definition shop_filtered :: "int select" where
  "shop_filtered =
     (Select_init ''users'')
       \<lparr>self_join := Some \<lparr>entries = [\<lparr>je_table = ''orders'', je_on = SQL ''o''\<rparr>]\<rparr>,
        self_where := Some (Composite (Leaf ''users'' ''id'' ''='' (Some 5)) OR_op
                              (Leaf ''orders'' ''user_id'' ''>'' (Some 18))),
        self_limit := Some (Composed [SQL ''LIMIT '', Literal 10])\<rparr>"

text \<open>
  A filter and an order whose direction is the text \<open>%s\<close>:
  \<open>Select("users").where(column="id", operator="=", value=5).order_by("name", direction="%s")\<close>,
  and the builder these calls make.
\<close>

definition direction_calls :: "int method_call list" where
  "direction_calls =
     [Call_where None
        \<lparr>kw_table = None, kw_column = Some ''id'', kw_operator = Some ''='', kw_value = Some 5\<rparr>,
      Call_order_by ''name'' None (Some ''%s'')]"

definition direction_select :: "int select" where
  "direction_select =
     (Select_init ''users'')
       \<lparr>self_where := Some (Leaf ''users'' ''id'' ''='' (Some 5)),
        self_order_by := Some (Composed
          [SQL ''ORDER BY '', Identifier [''users''], SQL ''.'', Identifier [''name''],
           SQL '' '', SQL ''%s''])\<rparr>"

text \<open>
  An order and a group on one builder:
  \<open>Select("users").order_by("id", direction="DESC").group_by("id")\<close>.
\<close>

definition ordered_grouped :: "int select" where
  "ordered_grouped =
     Select_group_by ''id'' None
       (Select_order_by ''id'' None (Some ''DESC'') (Select_init ''users''))"

definition users_query :: "error + int select" where
  "users_query =
     map_sum id (Select_limit 10)
       (Select_where None
          \<lparr>kw_table = None, kw_column = Some ''id'', kw_operator = Some ''='',
           kw_value = Some 5\<rparr>
          (Select_init ''users''))"

section \<open>Auxiliary facts\<close>

lemmas mutator_defs =
  Select_join_def Select_where_def Select_where_and_def Select_where_or_def
  Select_order_by_def Select_limit_def Select_offset_def Select_group_by_def

lemmas render_defs =
  Select_to_sql_def Select_get_params_def to_sql_columns_def to_sql_join_def
  to_sql_where_def Select_order_by_sql_def Select_group_by_sql_def Select_offset_sql_def
  Select_limit_sql_def Select_get_join_def Select_table_name_def

lemma as_string_interleave:
  "concat (map (as_string adapt) (interleave (SQL sep) cs)) = str_join sep (map (as_string adapt) cs)"
  by (induction "SQL sep :: 'a composable" cs rule: interleave.induct) simp_all

lemma as_string_sql_join:
  "as_string adapt (sql_join (SQL sep) cs) = str_join sep (map (as_string adapt) cs)"
  by (simp add: sql_join_def as_string_interleave)

lemma foldl_columns:
  "foldl (\<lambda>columns t. columns @ g t) init ts = init @ concat (map g ts)"
  by (induction ts arbitrary: init) simp_all

lemma then_self_Inr: "then_self x = Inr (r, s') \<longleftrightarrow> r = Self \<and> x = Inr s'"
  by (cases x) auto

lemma then_self_Inl: "then_self x = Inl e \<longleftrightarrow> x = Inl e"
  by (cases x) auto

lemma Select_where_and_eq:
  "Select_where_and a kw s =
     (case Where_init a (default_table s kw) of
        Inl e \<Rightarrow> Inl e
      | Inr w \<Rightarrow> Inr (s\<lparr>self_where :=
          Some (case self_where s of None \<Rightarrow> w | Some root \<Rightarrow> Composite root AND_op w)\<rparr>))"
  by (simp add: Select_where_and_def Where_sql_and_def split: sum.splits option.splits)

lemma Select_where_or_eq:
  "Select_where_or a kw s =
     (case Where_init a (default_table s kw) of
        Inl e \<Rightarrow> Inl e
      | Inr w \<Rightarrow> Inr (s\<lparr>self_where :=
          Some (case self_where s of None \<Rightarrow> w | Some root \<Rightarrow> Composite root OR_op w)\<rparr>))"
  by (simp add: Select_where_or_def Where_sql_or_def split: sum.splits option.splits)

lemma Where_init_object: "Where_init (Some w) kw = Inr w"
  by (simp add: Where_init_def)

lemma Select_where_eq: "Select_where a kw s = Select_where_and a kw s"
  by (simp add: Select_where_def Select_where_and_eq Where_init_object
      split: sum.splits option.splits)

lemmas filter_eqs = Select_where_eq Select_where_and_eq Select_where_or_eq

lemma calls_invariant:
  assumes "calls cs s = Inr (rs, s')" and "P s"
    and "\<And>c x r y. c \<in> set cs \<Longrightarrow> P x \<Longrightarrow> call c x = Inr (r, y) \<Longrightarrow> P y"
  shows "P s'"
  using assms
proof (induction cs arbitrary: s rs)
  case Nil
  then show ?case by simp
next
  case (Cons c cs)
  from Cons.prems(1) obtain r x rs' where
    step: "call c s = Inr (r, x)" and rest: "calls cs x = Inr (rs', s')"
    by (auto split: sum.splits prod.splits)
  have "P x" using Cons.prems(2,3) step by (meson list.set_intros(1))
  then show ?case
    using Cons.IH [OF rest] Cons.prems(3) by (meson list.set_intros(2))
qed

lemma Select_distinct_fields:
  "self_table_name (Select_distinct a s) = self_table_name s"
  "self_join (Select_distinct a s) = self_join s"
  "self_where (Select_distinct a s) = self_where s"
  "self_order_by (Select_distinct a s) = self_order_by s"
  "self_limit (Select_distinct a s) = self_limit s"
  "self_offset (Select_distinct a s) = self_offset s"
  "self_group_by (Select_distinct a s) = self_group_by s"
  by (cases a; simp)+

lemma Select_distinct_twice: "Select_distinct b (Select_distinct a s) = Select_distinct b s"
  by (cases a; cases b) simp_all

lemmas setter_defs =
  Select_join_def Select_order_by_def Select_limit_def Select_offset_def Select_group_by_def

lemma call_keeps_table_name:
  "call c s = Inr (r, s') \<Longrightarrow> self_table_name s' = self_table_name s"
  by (cases c)
     (auto simp: then_self_Inr filter_eqs setter_defs Select_distinct_fields
        split: sum.splits option.splits)

lemma call_keeps_join:
  "call c s = Inr (r, s') \<Longrightarrow> \<not> sets_join c \<Longrightarrow> self_join s' = self_join s"
  by (cases c)
     (auto simp: then_self_Inr filter_eqs setter_defs Select_distinct_fields
        split: sum.splits option.splits)

lemma call_keeps_where:
  "call c s = Inr (r, s') \<Longrightarrow> \<not> sets_where c \<Longrightarrow> self_where s' = self_where s"
  by (cases c)
     (auto simp: then_self_Inr filter_eqs setter_defs Select_distinct_fields
        split: sum.splits option.splits)

lemma call_keeps_order_by:
  "call c s = Inr (r, s') \<Longrightarrow> \<not> sets_order_by c \<Longrightarrow> self_order_by s' = self_order_by s"
  by (cases c)
     (auto simp: then_self_Inr filter_eqs setter_defs Select_distinct_fields
        split: sum.splits option.splits)

lemma call_keeps_group_by:
  "call c s = Inr (r, s') \<Longrightarrow> \<not> sets_group_by c \<Longrightarrow> self_group_by s' = self_group_by s"
  by (cases c)
     (auto simp: then_self_Inr filter_eqs setter_defs Select_distinct_fields
        split: sum.splits option.splits)

lemma call_keeps_offset:
  "call c s = Inr (r, s') \<Longrightarrow> \<not> sets_offset c \<Longrightarrow> self_offset s' = self_offset s"
  by (cases c)
     (auto simp: then_self_Inr filter_eqs setter_defs Select_distinct_fields
        split: sum.splits option.splits)

lemma call_keeps_limit:
  "call c s = Inr (r, s') \<Longrightarrow> \<not> sets_limit c \<Longrightarrow> self_limit s' = self_limit s"
  by (cases c)
     (auto simp: then_self_Inr filter_eqs setter_defs Select_distinct_fields
        split: sum.splits option.splits)

lemma calls_keep_join:
  assumes "calls cs s = Inr (rs, s')" and "\<not> list_ex sets_join cs"
  shows "self_join s' = self_join s"
  by (rule calls_invariant [OF assms(1), where P = "\<lambda>x. self_join x = self_join s"])
     (use assms(2) in \<open>auto simp: list_ex_iff dest: call_keeps_join\<close>)

lemma calls_keep_where:
  assumes "calls cs s = Inr (rs, s')" and "\<not> list_ex sets_where cs"
  shows "self_where s' = self_where s"
  by (rule calls_invariant [OF assms(1), where P = "\<lambda>x. self_where x = self_where s"])
     (use assms(2) in \<open>auto simp: list_ex_iff dest: call_keeps_where\<close>)

lemma calls_keep_order_by:
  assumes "calls cs s = Inr (rs, s')" and "\<not> list_ex sets_order_by cs"
  shows "self_order_by s' = self_order_by s"
  by (rule calls_invariant [OF assms(1), where P = "\<lambda>x. self_order_by x = self_order_by s"])
     (use assms(2) in \<open>auto simp: list_ex_iff dest: call_keeps_order_by\<close>)

lemma calls_keep_group_by:
  assumes "calls cs s = Inr (rs, s')" and "\<not> list_ex sets_group_by cs"
  shows "self_group_by s' = self_group_by s"
  by (rule calls_invariant [OF assms(1), where P = "\<lambda>x. self_group_by x = self_group_by s"])
     (use assms(2) in \<open>auto simp: list_ex_iff dest: call_keeps_group_by\<close>)

lemma calls_keep_offset:
  assumes "calls cs s = Inr (rs, s')" and "\<not> list_ex sets_offset cs"
  shows "self_offset s' = self_offset s"
  by (rule calls_invariant [OF assms(1), where P = "\<lambda>x. self_offset x = self_offset s"])
     (use assms(2) in \<open>auto simp: list_ex_iff dest: call_keeps_offset\<close>)

lemma calls_keep_limit:
  assumes "calls cs s = Inr (rs, s')" and "\<not> list_ex sets_limit cs"
  shows "self_limit s' = self_limit s"
  by (rule calls_invariant [OF assms(1), where P = "\<lambda>x. self_limit x = self_limit s"])
     (use assms(2) in \<open>auto simp: list_ex_iff dest: call_keeps_limit\<close>)

lemma calls_keep_table_name:
  assumes "calls cs s = Inr (rs, s')"
  shows "self_table_name s' = self_table_name s"
  by (rule calls_invariant [OF assms(1), where P = "\<lambda>x. self_table_name x = self_table_name s"])
     (auto dest: call_keeps_table_name)

lemma to_sql_text:
  "as_string adapt (Select_to_sql cfg s) =
     ''SELECT ''
     @ (case self_distinct s of
          None \<Rightarrow> str_join '','' (map (as_string adapt) (to_sql_columns cfg s))
        | Some d \<Rightarrow> as_string adapt d)
     @ '' FROM '' @ quote_ident (self_table_name s)
     @ '' '' @ as_string adapt (to_sql_join s)
     @ '' '' @ as_string adapt (to_sql_where s)
     @ '' '' @ as_string adapt (Select_order_by_sql s)
     @ '' '' @ as_string adapt (Select_group_by_sql s)
     @ '' '' @ as_string adapt (Select_offset_sql s)
     @ '' '' @ as_string adapt (Select_limit_sql s)"
  by (cases "self_distinct s")
     (simp_all add: Select_to_sql_def Select_table_name_def as_string_sql_join)

section \<open>The scenario: a filter and a limit\<close>

lemma users_query_value:
  "users_query = Inr ((Select_init ''users'')
     \<lparr>self_where := Some (Leaf ''users'' ''id'' ''='' (Some 5)),
      self_limit := Some (Composed [SQL ''LIMIT '', Literal 10])\<rparr>)"
  by (simp add: users_query_def Select_where_def Select_init_def Where_init_def
      default_table_def is_null_check_def Select_limit_def)

text \<open>
  C1, as the specification states it: the scenario renders a statement that ends in
  \<open>LIMIT %s\<close> and \<open>get_params\<close> returns \<open>[5, 10]\<close>. Neither holds: the statement
  of the scenario is not the one with \<open>LIMIT %s\<close>, and the parameter list is not
  \<open>[5, 10]\<close>.
\<close>

theorem C1_limit_is_not_a_parameter:
  "map_sum id (as_string adapt_int \<circ> Select_to_sql users_catalog) users_query \<noteq>
     Inr ''SELECT \"users\".\"id\",\"users\".\"name\" FROM \"users\"   WHERE \"users\".\"id\" = %s    LIMIT %s''
   \<and> map_sum id Select_get_params users_query \<noteq> Inr [5, 10]"
  by code_simp

text \<open>
  C1, amended: \<open>limit\<close> writes its value into the statement with \<open>sql.Literal\<close>, and
  \<open>get_params\<close> returns the parameters of the filter tree only. The scenario renders
  \<open>SELECT "users"."id","users"."name" FROM "users"   WHERE "users"."id" = %s    LIMIT 10\<close>
  and \<open>get_params\<close> returns \<open>[5]\<close>.
\<close>

theorem C1_users_scenario:
  "map_sum id (as_string adapt_int \<circ> Select_to_sql users_catalog) users_query =
     Inr ''SELECT \"users\".\"id\",\"users\".\"name\" FROM \"users\"   WHERE \"users\".\"id\" = %s    LIMIT 10''
   \<and> map_sum id Select_get_params users_query = Inr [5]"
  by code_simp

section \<open>Read-only rendering and the order direction\<close>

lemma final_state_Cons:
  "final_state (calls (c # cs) s) =
     (case call c s of Inl e \<Rightarrow> Inl e | Inr (r, s') \<Rightarrow> final_state (calls cs s'))"
  by (auto simp: final_state_def split: sum.splits prod.splits)

text \<open>
  C9: \<open>to_sql\<close> and \<open>get_params\<close> return their value and leave the builder as it
  was, every field of it; taking the rendering calls out of any sequence of calls
  leaves the final builder the same, and a rendering call made twice returns the same
  value twice.
\<close>

theorem C9_rendering_is_read_only:
  "call (Call_to_sql cfg) s = Inr (Command (Select_to_sql cfg s), s)
   \<and> call Call_get_params s = Inr (Params (Select_get_params s), s)
   \<and> (is_render c \<and> call c s = Inr (r, s') \<longrightarrow> s' = s)
   \<and> final_state (calls (filter (\<lambda>c. \<not> is_render c) cs) s) = final_state (calls cs s)
   \<and> calls [Call_to_sql cfg, Call_get_params, Call_to_sql cfg, Call_get_params] s =
       Inr ([Command (Select_to_sql cfg s), Params (Select_get_params s),
             Command (Select_to_sql cfg s), Params (Select_get_params s)], s)"
proof (intro conjI impI)
  show "call (Call_to_sql cfg) s = Inr (Command (Select_to_sql cfg s), s)" by simp
  show "call Call_get_params s = Inr (Params (Select_get_params s), s)" by simp
  show "s' = s" if "is_render c \<and> call c s = Inr (r, s')"
    using that by (cases c) auto
  show "final_state (calls (filter (\<lambda>c. \<not> is_render c) cs) s) = final_state (calls cs s)"
  proof (induction cs arbitrary: s)
    case Nil
    then show ?case by simp
  next
    case (Cons c cs)
    show ?case
    proof (cases "is_render c")
      case True
      then have "call c s = Inr (Command (Select_to_sql (case c of Call_to_sql g \<Rightarrow> g) s), s)
                 \<or> call c s = Inr (Params (Select_get_params s), s)"
        by (cases c) auto
      then have "final_state (calls (c # cs) s) = final_state (calls cs s)"
        by (auto simp: final_state_Cons simp del: calls.simps)
      with True Cons.IH show ?thesis by simp
    next
      case False
      then show ?thesis
        by (cases "call c s") (auto simp: final_state_Cons Cons.IH simp del: calls.simps)
    qed
  qed
  show "calls [Call_to_sql cfg, Call_get_params, Call_to_sql cfg, Call_get_params] s =
       Inr ([Command (Select_to_sql cfg s), Params (Select_get_params s),
             Command (Select_to_sql cfg s), Params (Select_get_params s)], s)"
    by simp
qed

theorem C9_rendering_is_read_only_witness:
  "is_render (Call_get_params :: int method_call)
   \<and> call Call_get_params (Select_limit (10::int) (Select_init ''users''))
       = Inr (Params [], Select_limit 10 (Select_init ''users''))
   \<and> final_state (calls [Call_to_sql users_catalog, Call_limit (10::int), Call_get_params]
        (Select_init ''users'')) = Inr (Select_limit 10 (Select_init ''users''))"
proof -
  let ?s = "Select_limit (10::int) (Select_init ''users'')"
  have a: "is_render (Call_get_params :: int method_call)" by simp
  have b: "call Call_get_params ?s = Inr (Params [], ?s)"
    by (simp add: Select_get_params_def Select_limit_def Select_init_def)
  have "final_state (calls (filter (\<lambda>c. \<not> is_render c)
          [Call_to_sql users_catalog, Call_limit (10::int), Call_get_params]) (Select_init ''users''))
        = final_state (calls [Call_to_sql users_catalog, Call_limit (10::int), Call_get_params]
          (Select_init ''users''))"
    using C9_rendering_is_read_only
      [of users_catalog "Select_init ''users''" Call_get_params Self "Select_init ''users''"
          "[Call_to_sql users_catalog, Call_limit (10::int), Call_get_params]"]
    by blast
  then have c: "final_state (calls [Call_to_sql users_catalog, Call_limit (10::int), Call_get_params]
        (Select_init ''users'')) = Inr ?s"
    by (simp add: final_state_def)
  show ?thesis using a b c by blast
qed

text \<open>
  C10: \<open>order_by\<close> quotes the table and the column as identifiers and puts the
  direction into the clause as it is, \<open>ASC\<close> when none is given; the statement of
  \<open>to_sql\<close> holds that clause, with the direction unchanged, between the filter and the
  group clause.
\<close>

theorem C10_direction_verbatim:
  "as_string adapt (Select_order_by_sql (Select_order_by column table direction s))
     = ''ORDER BY '' @ quote_ident (case table of None \<Rightarrow> self_table_name s | Some t \<Rightarrow> t)
       @ ''.'' @ quote_ident column @ '' ''
       @ (case direction of None \<Rightarrow> ''ASC'' | Some d \<Rightarrow> d)
   \<and> as_string adapt (Select_to_sql cfg (Select_order_by column table direction s))
     = ''SELECT ''
       @ (case self_distinct s of
            None \<Rightarrow> str_join '','' (map (as_string adapt) (to_sql_columns cfg s))
          | Some d \<Rightarrow> as_string adapt d)
       @ '' FROM '' @ quote_ident (self_table_name s)
       @ '' '' @ as_string adapt (to_sql_join s)
       @ '' '' @ as_string adapt (to_sql_where s)
       @ '' '' @ ''ORDER BY ''
       @ quote_ident (case table of None \<Rightarrow> self_table_name s | Some t \<Rightarrow> t)
       @ ''.'' @ quote_ident column @ '' ''
       @ (case direction of None \<Rightarrow> ''ASC'' | Some d \<Rightarrow> d)
       @ '' '' @ as_string adapt (Select_group_by_sql s)
       @ '' '' @ as_string adapt (Select_offset_sql s)
       @ '' '' @ as_string adapt (Select_limit_sql s)"
proof -
  let ?s' = "Select_order_by column table direction s"
  have clause: "as_string adapt (Select_order_by_sql ?s')
     = ''ORDER BY '' @ quote_ident (case table of None \<Rightarrow> self_table_name s | Some t \<Rightarrow> t)
       @ ''.'' @ quote_ident column @ '' ''
       @ (case direction of None \<Rightarrow> ''ASC'' | Some d \<Rightarrow> d)"
    by (simp add: Select_order_by_sql_def Select_order_by_def)
  have same:
    "self_distinct ?s' = self_distinct s" "to_sql_columns cfg ?s' = to_sql_columns cfg s"
    "self_table_name ?s' = self_table_name s" "to_sql_join ?s' = to_sql_join s"
    "to_sql_where ?s' = to_sql_where s" "Select_group_by_sql ?s' = Select_group_by_sql s"
    "Select_offset_sql ?s' = Select_offset_sql s" "Select_limit_sql ?s' = Select_limit_sql s"
    by (simp_all add: Select_order_by_def render_defs split: option.splits)
  show ?thesis
    using clause by (simp add: to_sql_text [of adapt cfg ?s'] same cong: option.case_cong)
qed

theorem C10_direction_verbatim_witness:
  "as_string adapt_int (Select_to_sql users_catalog
     (Select_order_by ''name'' None (Some ''ASC; DROP TABLE \"users\" --'') (Select_init ''users'')))
   = ''SELECT \"users\".\"id\",\"users\".\"name\" FROM \"users\"   ORDER BY \"users\".\"name\" ASC; DROP TABLE \"users\" --   ''"
proof -
  have "as_string adapt_int (Select_to_sql users_catalog
     (Select_order_by ''name'' None (Some ''ASC; DROP TABLE \"users\" --'') (Select_init ''users'')))
   = ''SELECT ''
       @ (case self_distinct (Select_init ''users'' :: int select) of
            None \<Rightarrow> str_join '','' (map (as_string adapt_int)
                      (to_sql_columns users_catalog (Select_init ''users'')))
          | Some d \<Rightarrow> as_string adapt_int d)
       @ '' FROM '' @ quote_ident (self_table_name (Select_init ''users'' :: int select))
       @ '' '' @ as_string adapt_int (to_sql_join (Select_init ''users''))
       @ '' '' @ as_string adapt_int (to_sql_where (Select_init ''users''))
       @ '' '' @ ''ORDER BY ''
       @ quote_ident (case None of None \<Rightarrow> self_table_name (Select_init ''users'' :: int select)
                      | Some t \<Rightarrow> t)
       @ ''.'' @ quote_ident ''name'' @ '' ''
       @ (case Some ''ASC; DROP TABLE \"users\" --'' of None \<Rightarrow> ''ASC'' | Some d \<Rightarrow> d)
       @ '' '' @ as_string adapt_int (Select_group_by_sql (Select_init ''users''))
       @ '' '' @ as_string adapt_int (Select_offset_sql (Select_init ''users''))
       @ '' '' @ as_string adapt_int (Select_limit_sql (Select_init ''users''))"
    using C10_direction_verbatim
      [of adapt_int "''name''" None "Some ''ASC; DROP TABLE \"users\" --''"
          "Select_init ''users''" users_catalog]
    by blast
  also have "\<dots> = ''SELECT \"users\".\"id\",\"users\".\"name\" FROM \"users\"   ORDER BY \"users\".\"name\" ASC; DROP TABLE \"users\" --   ''"
    by code_simp
  finally show ?thesis .
qed

section \<open>The projection with joins\<close>

lemma columns_text:
  "map (as_string adapt) (get_columns_composed t cfg) = qualified_columns cfg t"
  by (simp add: get_columns_composed_def qualified_columns_def comp_def)

lemma to_sql_columns_eq:
  "to_sql_columns cfg s =
     get_columns_composed (self_table_name s) cfg
     @ concat (map (\<lambda>t. get_columns_composed t cfg)
         (case self_join s of None \<Rightarrow> [] | Some j \<Rightarrow> Join_tables j))"
  by (cases "self_join s")
     (simp_all add: to_sql_columns_def Select_get_join_def Select_table_name_def foldl_columns)

lemma to_sql_columns_text:
  "map (as_string adapt) (to_sql_columns cfg s) =
     concat (map (qualified_columns cfg)
       (self_table_name s # (case self_join s of None \<Rightarrow> [] | Some j \<Rightarrow> Join_tables j)))"
  by (simp add: to_sql_columns_eq columns_text map_concat comp_def)

text \<open>
  C5: the columns \<open>to_sql\<close> builds are the catalog columns of the base table and,
  behind them, the catalog columns of every joined table in the order of
  \<open>join.tables\<close>; with no join they are the columns of the base table alone; a
  further \<open>join\<close> call puts its tables behind the tables already joined; and on a
  builder without \<open>distinct\<close> these columns, separated by commas, are the projection
  of the statement.
\<close>

theorem C5_projection_order:
  "to_sql_columns cfg s =
     get_columns_composed (self_table_name s) cfg
     @ concat (map (\<lambda>t. get_columns_composed t cfg)
         (case self_join s of None \<Rightarrow> [] | Some j \<Rightarrow> Join_tables j))
   \<and> (self_join s = None \<longrightarrow>
        to_sql_columns cfg s = get_columns_composed (self_table_name s) cfg)
   \<and> (self_join s = Some j \<longrightarrow>
        self_join (Select_join arg s) = Some (Join_join arg j)
        \<and> Join_tables (Join_join arg j) = Join_tables j @ map je_table (join_arg_entries arg))
   \<and> (self_distinct s = None \<longrightarrow>
        as_string adapt (Select_to_sql cfg s) =
          ''SELECT ''
          @ str_join '','' (concat (map (qualified_columns cfg)
              (self_table_name s # (case self_join s of None \<Rightarrow> [] | Some j \<Rightarrow> Join_tables j))))
          @ '' FROM '' @ quote_ident (self_table_name s)
          @ '' '' @ as_string adapt (to_sql_join s)
          @ '' '' @ as_string adapt (to_sql_where s)
          @ '' '' @ as_string adapt (Select_order_by_sql s)
          @ '' '' @ as_string adapt (Select_group_by_sql s)
          @ '' '' @ as_string adapt (Select_offset_sql s)
          @ '' '' @ as_string adapt (Select_limit_sql s))"
proof (intro conjI impI)
  show "to_sql_columns cfg s =
     get_columns_composed (self_table_name s) cfg
     @ concat (map (\<lambda>t. get_columns_composed t cfg)
         (case self_join s of None \<Rightarrow> [] | Some j \<Rightarrow> Join_tables j))"
    by (rule to_sql_columns_eq)
  show "to_sql_columns cfg s = get_columns_composed (self_table_name s) cfg"
    if "self_join s = None"
    using that by (simp add: to_sql_columns_eq)
  show "self_join (Select_join arg s) = Some (Join_join arg j)" if "self_join s = Some j"
    using that by (simp add: Select_join_def)
  show "Join_tables (Join_join arg j) = Join_tables j @ map je_table (join_arg_entries arg)"
    by (cases arg) (simp_all add: Join_tables_def join_arg_entries_def)
  show "as_string adapt (Select_to_sql cfg s) =
          ''SELECT ''
          @ str_join '','' (concat (map (qualified_columns cfg)
              (self_table_name s # (case self_join s of None \<Rightarrow> [] | Some j \<Rightarrow> Join_tables j))))
          @ '' FROM '' @ quote_ident (self_table_name s)
          @ '' '' @ as_string adapt (to_sql_join s)
          @ '' '' @ as_string adapt (to_sql_where s)
          @ '' '' @ as_string adapt (Select_order_by_sql s)
          @ '' '' @ as_string adapt (Select_group_by_sql s)
          @ '' '' @ as_string adapt (Select_offset_sql s)
          @ '' '' @ as_string adapt (Select_limit_sql s)"
    if "self_distinct s = None"
    using that by (simp add: to_sql_text to_sql_columns_text)
qed

lemma shop_query_value:
  "shop_query = (Select_init ''users'')
     \<lparr>self_join := Some \<lparr>entries = [\<lparr>je_table = ''orders'', je_on = SQL ''o''\<rparr>,
                                   \<lparr>je_table = ''items'', je_on = SQL ''i''\<rparr>]\<rparr>\<rparr>"
  by (simp add: shop_query_def Select_join_def Select_init_def)

theorem C5_projection_order_witness:
  "self_distinct shop_query = None
   \<and> self_join shop_query = Some \<lparr>entries = [\<lparr>je_table = ''orders'', je_on = SQL ''o''\<rparr>,
                                              \<lparr>je_table = ''items'', je_on = SQL ''i''\<rparr>]\<rparr>
   \<and> as_string adapt_int (Select_to_sql shop_catalog shop_query) =
       ''SELECT \"users\".\"id\",\"users\".\"name\",\"orders\".\"id\",\"orders\".\"user_id\",\"items\".\"order_id\",\"items\".\"sku\" FROM \"users\" JOIN \"orders\" ON o JOIN \"items\" ON i     ''"
proof -
  have d: "self_distinct shop_query = None"
    by (simp add: shop_query_value Select_init_def)
  have j: "self_join shop_query = Some \<lparr>entries = [\<lparr>je_table = ''orders'', je_on = SQL ''o''\<rparr>,
                                              \<lparr>je_table = ''items'', je_on = SQL ''i''\<rparr>]\<rparr>"
    by (simp add: shop_query_value)
  have "as_string adapt_int (Select_to_sql shop_catalog shop_query) =
          ''SELECT ''
          @ str_join '','' (concat (map (qualified_columns shop_catalog)
              (self_table_name shop_query
               # (case self_join shop_query of None \<Rightarrow> [] | Some j \<Rightarrow> Join_tables j))))
          @ '' FROM '' @ quote_ident (self_table_name shop_query)
          @ '' '' @ as_string adapt_int (to_sql_join shop_query)
          @ '' '' @ as_string adapt_int (to_sql_where shop_query)
          @ '' '' @ as_string adapt_int (Select_order_by_sql shop_query)
          @ '' '' @ as_string adapt_int (Select_group_by_sql shop_query)
          @ '' '' @ as_string adapt_int (Select_offset_sql shop_query)
          @ '' '' @ as_string adapt_int (Select_limit_sql shop_query)"
    using C5_projection_order [of shop_catalog shop_query _ _ adapt_int] d by blast
  also have "\<dots> = ''SELECT \"users\".\"id\",\"users\".\"name\",\"orders\".\"id\",\"orders\".\"user_id\",\"items\".\"order_id\",\"items\".\"sku\" FROM \"users\" JOIN \"orders\" ON o JOIN \"items\" ON i     ''"
    by code_simp
  finally show ?thesis using d j by blast
qed

section \<open>Distinct replaces the projection\<close>

lemma Select_distinct_clause:
  "self_distinct (Select_distinct a s) = self_distinct (Select_distinct a s0)"
  by (cases a) simp_all

lemma Select_distinct_text:
  "\<exists>d. self_distinct (Select_distinct a s) = Some d
       \<and> as_string adapt d = ''DISTINCT '' @ distinct_columns_text a"
  by (cases a) (simp_all add: as_string_sql_join comp_def)

lemma call_distinct:
  "call c s = Inr (r, s') \<Longrightarrow>
   self_distinct s' =
     (case last_distinct [c] of None \<Rightarrow> self_distinct s
      | Some a \<Rightarrow> self_distinct (Select_distinct a s))"
  by (cases c)
     (auto simp: then_self_Inr filter_eqs setter_defs split: sum.splits option.splits)

lemma last_distinct_Cons:
  "last_distinct (c # cs) =
     (case last_distinct cs of None \<Rightarrow> last_distinct [c] | Some later \<Rightarrow> Some later)"
  by (cases c) (simp_all split: option.splits)

lemma calls_distinct:
  "calls cs s = Inr (rs, s') \<Longrightarrow>
   self_distinct s' =
     (case last_distinct cs of None \<Rightarrow> self_distinct s
      | Some a \<Rightarrow> self_distinct (Select_distinct a s))"
proof (induction cs arbitrary: s rs)
  case Nil
  then show ?case by simp
next
  case (Cons c cs)
  from Cons.prems obtain r x rs' where
    step: "call c s = Inr (r, x)" and rest: "calls cs x = Inr (rs', s')"
    by (auto split: sum.splits prod.splits)
  note IH = Cons.IH [OF rest] and first = call_distinct [OF step]
  show ?case
  proof (cases "last_distinct cs")
    case None
    then show ?thesis using IH first by (simp add: last_distinct_Cons [of c cs])
  next
    case (Some a)
    then show ?thesis
      using IH Select_distinct_clause [of a x s] by (simp add: last_distinct_Cons [of c cs])
  qed
qed

text \<open>
  C4: on a builder made by any sequence of calls in which \<open>distinct\<close> was called, in
  whatever position, the projection of the statement is \<open>DISTINCT\<close> and the columns
  of the last \<open>distinct\<close> call, and the statement is the same for every catalog, so
  no catalog column and no column of a joined table is in it; on a builder made without
  a \<open>distinct\<close> call the projection is the plain column list.
\<close>

theorem C4_distinct_replaces_projection:
  "(calls cs s0 = Inr (rs, s) \<and> last_distinct cs = Some a \<longrightarrow>
      as_string adapt (Select_to_sql cfg s) =
        ''SELECT '' @ ''DISTINCT '' @ distinct_columns_text a
        @ '' FROM '' @ quote_ident (self_table_name s)
        @ '' '' @ as_string adapt (to_sql_join s)
        @ '' '' @ as_string adapt (to_sql_where s)
        @ '' '' @ as_string adapt (Select_order_by_sql s)
        @ '' '' @ as_string adapt (Select_group_by_sql s)
        @ '' '' @ as_string adapt (Select_offset_sql s)
        @ '' '' @ as_string adapt (Select_limit_sql s)
      \<and> Select_to_sql cfg s = Select_to_sql cfg' s)
   \<and> (calls cs (Select_init t) = Inr (rs, s) \<and> last_distinct cs = None \<longrightarrow>
      as_string adapt (Select_to_sql cfg s) =
        ''SELECT '' @ str_join '','' (map (as_string adapt) (to_sql_columns cfg s))
        @ '' FROM '' @ quote_ident (self_table_name s)
        @ '' '' @ as_string adapt (to_sql_join s)
        @ '' '' @ as_string adapt (to_sql_where s)
        @ '' '' @ as_string adapt (Select_order_by_sql s)
        @ '' '' @ as_string adapt (Select_group_by_sql s)
        @ '' '' @ as_string adapt (Select_offset_sql s)
        @ '' '' @ as_string adapt (Select_limit_sql s))"
proof (intro conjI impI)
  assume run: "calls cs s0 = Inr (rs, s) \<and> last_distinct cs = Some a"
  then have "self_distinct s = self_distinct (Select_distinct a s0)"
    using calls_distinct [of cs s0 rs s] by simp
  then obtain d where d: "self_distinct s = Some d"
    and clause: "as_string adapt d = ''DISTINCT '' @ distinct_columns_text a"
    using Select_distinct_text [of a s0 adapt] by auto
  show "as_string adapt (Select_to_sql cfg s) =
        ''SELECT '' @ ''DISTINCT '' @ distinct_columns_text a
        @ '' FROM '' @ quote_ident (self_table_name s)
        @ '' '' @ as_string adapt (to_sql_join s)
        @ '' '' @ as_string adapt (to_sql_where s)
        @ '' '' @ as_string adapt (Select_order_by_sql s)
        @ '' '' @ as_string adapt (Select_group_by_sql s)
        @ '' '' @ as_string adapt (Select_offset_sql s)
        @ '' '' @ as_string adapt (Select_limit_sql s)"
    by (simp add: to_sql_text d clause)
  show "Select_to_sql cfg s = Select_to_sql cfg' s"
    by (simp add: Select_to_sql_def d)
next
  assume run: "calls cs (Select_init t) = Inr (rs, s) \<and> last_distinct cs = None"
  then have "self_distinct s = None"
    using calls_distinct [of cs "Select_init t" rs s] by (simp add: Select_init_def)
  then show "as_string adapt (Select_to_sql cfg s) =
        ''SELECT '' @ str_join '','' (map (as_string adapt) (to_sql_columns cfg s))
        @ '' FROM '' @ quote_ident (self_table_name s)
        @ '' '' @ as_string adapt (to_sql_join s)
        @ '' '' @ as_string adapt (to_sql_where s)
        @ '' '' @ as_string adapt (Select_order_by_sql s)
        @ '' '' @ as_string adapt (Select_group_by_sql s)
        @ '' '' @ as_string adapt (Select_offset_sql s)
        @ '' '' @ as_string adapt (Select_limit_sql s)"
    by (simp add: to_sql_text)
qed

theorem C4_distinct_replaces_projection_witness:
  "calls [Call_distinct (Columns [''name'', ''id'']),
          Call_join (Join_kwargs \<lparr>je_table = ''orders'', je_on = SQL ''o''\<rparr>),
          Call_distinct (Column ''name''), Call_limit (3::int)] (Select_init ''users'')
     = Inr ([Self, Self, Self, Self],
         Select_limit 3 (Select_distinct (Column ''name'')
           (Select_join (Join_kwargs \<lparr>je_table = ''orders'', je_on = SQL ''o''\<rparr>)
             (Select_distinct (Columns [''name'', ''id'']) (Select_init ''users'')))))
   \<and> last_distinct [Call_distinct (Columns [''name'', ''id'']),
          Call_join (Join_kwargs \<lparr>je_table = ''orders'', je_on = SQL ''o''\<rparr>),
          Call_distinct (Column ''name''), Call_limit (3::int)] = Some (Column ''name'')
   \<and> as_string adapt_int (Select_to_sql shop_catalog
         (Select_limit 3 (Select_distinct (Column ''name'')
           (Select_join (Join_kwargs \<lparr>je_table = ''orders'', je_on = SQL ''o''\<rparr>)
             (Select_distinct (Columns [''name'', ''id'']) (Select_init ''users''))))))
       = ''SELECT DISTINCT \"name\" FROM \"users\" JOIN \"orders\" ON o     LIMIT 3''"
proof -
  let ?cs = "[Call_distinct (Columns [''name'', ''id'']),
          Call_join (Join_kwargs \<lparr>je_table = ''orders'', je_on = SQL ''o''\<rparr>),
          Call_distinct (Column ''name''), Call_limit (3::int)]"
  let ?s = "Select_limit (3::int) (Select_distinct (Column ''name'')
           (Select_join (Join_kwargs \<lparr>je_table = ''orders'', je_on = SQL ''o''\<rparr>)
             (Select_distinct (Columns [''name'', ''id'']) (Select_init ''users''))))"
  have run: "calls ?cs (Select_init ''users'') = Inr ([Self, Self, Self, Self], ?s)"
    by simp
  have last: "last_distinct ?cs = Some (Column ''name'')"
    by simp
  have "as_string adapt_int (Select_to_sql shop_catalog ?s) =
        ''SELECT '' @ ''DISTINCT '' @ distinct_columns_text (Column ''name'')
        @ '' FROM '' @ quote_ident (self_table_name ?s)
        @ '' '' @ as_string adapt_int (to_sql_join ?s)
        @ '' '' @ as_string adapt_int (to_sql_where ?s)
        @ '' '' @ as_string adapt_int (Select_order_by_sql ?s)
        @ '' '' @ as_string adapt_int (Select_group_by_sql ?s)
        @ '' '' @ as_string adapt_int (Select_offset_sql ?s)
        @ '' '' @ as_string adapt_int (Select_limit_sql ?s)"
    using C4_distinct_replaces_projection
      [of ?cs "Select_init ''users''" "[Self, Self, Self, Self]" ?s "Column ''name''"
          adapt_int shop_catalog shop_catalog "''users''"]
      run last
    by blast
  also have "\<dots> = ''SELECT DISTINCT \"name\" FROM \"users\" JOIN \"orders\" ON o     LIMIT 3''"
    by code_simp
  finally show ?thesis using run last by blast
qed

section \<open>The filter tree of a builder\<close>

lemma grown_from_refl: "grown_from w w"
  by (cases w) simp_all

lemma grown_from_trans: "grown_from c b \<Longrightarrow> grown_from b a \<Longrightarrow> grown_from c a"
  by (induction c) auto

lemma call_grows_where:
  assumes "call c s = Inr (r, s')" and "self_where s = Some root"
  shows "\<exists>root'. self_where s' = Some root' \<and> grown_from root' root"
proof (cases "sets_where c")
  case False
  then have "self_where s' = self_where s"
    using assms(1) by (rule call_keeps_where [rotated])
  then show ?thesis using assms(2) by (simp add: grown_from_refl)
next
  case True
  then show ?thesis
    using assms
    by (cases c) (auto simp: then_self_Inr filter_eqs grown_from_refl split: sum.splits)
qed

lemma calls_grow_where:
  assumes "calls cs s = Inr (rs, s')" and "self_where s = Some root"
  shows "case self_where s' of None \<Rightarrow> False | Some root' \<Rightarrow> grown_from root' root"
proof (rule calls_invariant [OF assms(1),
    where P = "\<lambda>x. case self_where x of None \<Rightarrow> False | Some root' \<Rightarrow> grown_from root' root"])
  show "case self_where s of None \<Rightarrow> False | Some root' \<Rightarrow> grown_from root' root"
    using assms(2) by (simp add: grown_from_refl)
next
  fix c x r y
  assume inv: "case self_where x of None \<Rightarrow> False | Some root' \<Rightarrow> grown_from root' root"
    and step: "call c x = Inr (r, y)"
  from inv obtain mid where mid: "self_where x = Some mid" "grown_from mid root"
    by (auto split: option.splits)
  from call_grows_where [OF step mid(1)] obtain root' where
    "self_where y = Some root'" "grown_from root' mid" by blast
  then show "case self_where y of None \<Rightarrow> False | Some root' \<Rightarrow> grown_from root' root"
    using mid(2) by (auto intro: grown_from_trans)
qed

text \<open>
  C6: a filter call builds its node \<open>w\<close> (or raises, and then sets nothing). On a
  builder without a filter each of \<open>where\<close>, \<open>where_and\<close>, \<open>where_or\<close> makes \<open>w\<close>
  the root. On a builder with the root \<open>root\<close>, \<open>where_and\<close> makes the composite
  \<open>root AND w\<close> the root, \<open>where_or\<close> the composite \<open>root OR w\<close>, and \<open>where\<close>
  does what \<open>where_and\<close> does. No other call touches the root, and after any sequence
  of calls the root is still there: the new root is the old one or a chain of
  composites around it.
\<close>

theorem C6_filter_tree_grows:
  "(Where_init a (default_table s kw) = Inl e \<longrightarrow>
      Select_where a kw s = Inl e \<and> Select_where_and a kw s = Inl e
      \<and> Select_where_or a kw s = Inl e)
   \<and> (Where_init a (default_table s kw) = Inr w \<longrightarrow>
        (self_where s = None \<longrightarrow>
           Select_where a kw s = Inr (s\<lparr>self_where := Some w\<rparr>)
           \<and> Select_where_and a kw s = Inr (s\<lparr>self_where := Some w\<rparr>)
           \<and> Select_where_or a kw s = Inr (s\<lparr>self_where := Some w\<rparr>))
      \<and> (self_where s = Some root \<longrightarrow>
           Select_where_and a kw s = Inr (s\<lparr>self_where := Some (Composite root AND_op w)\<rparr>)
           \<and> Select_where_or a kw s = Inr (s\<lparr>self_where := Some (Composite root OR_op w)\<rparr>)
           \<and> Select_where a kw s = Inr (s\<lparr>self_where := Some (Composite root AND_op w)\<rparr>)))
   \<and> Select_where a kw s = Select_where_and a kw s
   \<and> (call c s = Inr (r, s') \<and> \<not> sets_where c \<longrightarrow> self_where s' = self_where s)
   \<and> (calls cs s = Inr (rs, s') \<and> self_where s = Some root \<longrightarrow>
        (case self_where s' of None \<Rightarrow> False | Some root' \<Rightarrow> grown_from root' root))"
proof (intro conjI impI)
  assume "Where_init a (default_table s kw) = Inl e"
  then show "Select_where a kw s = Inl e" "Select_where_and a kw s = Inl e"
    "Select_where_or a kw s = Inl e"
    by (simp_all add: filter_eqs)
next
  assume "Where_init a (default_table s kw) = Inr w" and "self_where s = None"
  then show "Select_where a kw s = Inr (s\<lparr>self_where := Some w\<rparr>)"
    "Select_where_and a kw s = Inr (s\<lparr>self_where := Some w\<rparr>)"
    "Select_where_or a kw s = Inr (s\<lparr>self_where := Some w\<rparr>)"
    by (simp_all add: filter_eqs)
next
  assume "Where_init a (default_table s kw) = Inr w" and "self_where s = Some root"
  then show "Select_where_and a kw s = Inr (s\<lparr>self_where := Some (Composite root AND_op w)\<rparr>)"
    "Select_where_or a kw s = Inr (s\<lparr>self_where := Some (Composite root OR_op w)\<rparr>)"
    "Select_where a kw s = Inr (s\<lparr>self_where := Some (Composite root AND_op w)\<rparr>)"
    by (simp_all add: filter_eqs)
next
  show "Select_where a kw s = Select_where_and a kw s"
    by (rule Select_where_eq)
next
  assume "call c s = Inr (r, s') \<and> \<not> sets_where c"
  then show "self_where s' = self_where s"
    using call_keeps_where [of c s r s'] by blast
next
  assume "calls cs s = Inr (rs, s') \<and> self_where s = Some root"
  then show "case self_where s' of None \<Rightarrow> False | Some root' \<Rightarrow> grown_from root' root"
    using calls_grow_where [of cs s rs s' root] by blast
qed

theorem C6_filter_tree_grows_witness:
  "Where_init None (default_table (Select_init ''users'')
      \<lparr>kw_table = None, kw_column = Some ''id'', kw_operator = Some ''='',
       kw_value = Some (5::int)\<rparr>) = Inr (Leaf ''users'' ''id'' ''='' (Some 5))
   \<and> self_where (Select_init ''users'' :: int select) = None
   \<and> Select_where None
        \<lparr>kw_table = None, kw_column = Some ''id'', kw_operator = Some ''='',
         kw_value = Some (5::int)\<rparr> (Select_init ''users'')
      = Inr ((Select_init ''users'')\<lparr>self_where := Some (Leaf ''users'' ''id'' ''='' (Some 5))\<rparr>)
   \<and> Select_where_or None
        \<lparr>kw_table = None, kw_column = Some ''age'', kw_operator = Some ''>'',
         kw_value = Some (18::int)\<rparr>
        ((Select_init ''users'')\<lparr>self_where := Some (Leaf ''users'' ''id'' ''='' (Some 5))\<rparr>)
      = Inr ((Select_init ''users'')\<lparr>self_where :=
          Some (Composite (Leaf ''users'' ''id'' ''='' (Some 5)) OR_op
                  (Leaf ''users'' ''age'' ''>'' (Some 18)))\<rparr>)
   \<and> Select_where None
        \<lparr>kw_table = None, kw_column = Some ''id'', kw_operator = Some ''IS NULL'',
         kw_value = Some (5::int)\<rparr> (Select_init ''users'')
      = Inl InvalidFilter"
proof -
  let ?kw = "\<lparr>kw_table = None, kw_column = Some ''id'', kw_operator = Some ''='',
       kw_value = Some (5::int)\<rparr>"
  let ?kw2 = "\<lparr>kw_table = None, kw_column = Some ''age'', kw_operator = Some ''>'',
       kw_value = Some (18::int)\<rparr>"
  let ?kw3 = "\<lparr>kw_table = None, kw_column = Some ''id'', kw_operator = Some ''IS NULL'',
       kw_value = Some (5::int)\<rparr>"
  let ?s1 = "(Select_init ''users'')\<lparr>self_where := Some (Leaf ''users'' ''id'' ''='' (Some (5::int)))\<rparr>"
  have built: "Where_init None (default_table (Select_init ''users'') ?kw)
      = Inr (Leaf ''users'' ''id'' ''='' (Some 5))"
    by (simp add: Where_init_def default_table_def Select_init_def is_null_check_def)
  have fresh: "self_where (Select_init ''users'' :: int select) = None"
    by (simp add: Select_init_def)
  have first: "Select_where None ?kw (Select_init ''users'')
      = Inr ((Select_init ''users'')\<lparr>self_where := Some (Leaf ''users'' ''id'' ''='' (Some 5))\<rparr>)"
    using C6_filter_tree_grows
      [of None "Select_init ''users''" ?kw _ "Leaf ''users'' ''id'' ''='' (Some 5)"]
      built fresh
    by blast
  have built2: "Where_init None (default_table ?s1 ?kw2) = Inr (Leaf ''users'' ''age'' ''>'' (Some 18))"
    by (simp add: Where_init_def default_table_def Select_init_def is_null_check_def)
  have root: "self_where ?s1 = Some (Leaf ''users'' ''id'' ''='' (Some 5))"
    by simp
  have second: "Select_where_or None ?kw2 ?s1
      = Inr (?s1\<lparr>self_where := Some (Composite (Leaf ''users'' ''id'' ''='' (Some 5)) OR_op
                  (Leaf ''users'' ''age'' ''>'' (Some 18)))\<rparr>)"
    using C6_filter_tree_grows
      [of None ?s1 ?kw2 _ "Leaf ''users'' ''age'' ''>'' (Some 18)"
          "Leaf ''users'' ''id'' ''='' (Some 5)"]
      built2 root
    by blast
  have failed: "Where_init None (default_table (Select_init ''users'') ?kw3) = Inl InvalidFilter"
    by (simp add: Where_init_def default_table_def Select_init_def is_null_check_def)
  have third: "Select_where None ?kw3 (Select_init ''users'') = Inl InvalidFilter"
    using C6_filter_tree_grows [of None "Select_init ''users''" ?kw3 InvalidFilter] failed
    by blast
  show ?thesis
    using built fresh first second third by simp
qed

section \<open>The default table\<close>

lemma Where_init_kwargs:
  assumes "Where_init None kw = Inr w"
    and "kw_column kw = Some c" and "kw_operator kw = Some operator"
  shows "\<exists>t. kw_table kw = Some t \<and> w = Leaf t c operator (kw_value kw)"
  using assms by (auto simp: Where_init_def split: option.splits if_splits)

lemma default_table_fields:
  "kw_table (default_table s kw) =
     Some (case kw_table kw of None \<Rightarrow> self_table_name s | Some t \<Rightarrow> t)"
  "kw_column (default_table s kw) = kw_column kw"
  "kw_operator (default_table s kw) = kw_operator kw"
  "kw_value (default_table s kw) = kw_value kw"
  by (auto simp: default_table_def split: option.splits)

lemma filter_call_last_condition:
  assumes "Select_where None kw s = Inr s' \<or> Select_where_and None kw s = Inr s'
           \<or> Select_where_or None kw s = Inr s'"
    and "kw_column kw = Some c" and "kw_operator kw = Some operator"
  shows "map_option last_condition (self_where s') =
     Some (Leaf (case kw_table kw of None \<Rightarrow> self_table_name s | Some t \<Rightarrow> t)
             c operator (kw_value kw))"
proof -
  from assms(1) obtain w where
    w: "Where_init None (default_table s kw) = Inr w"
    and root: "self_where s' = Some (case self_where s of None \<Rightarrow> w | Some root \<Rightarrow> Composite root AND_op w)
               \<or> self_where s' = Some (case self_where s of None \<Rightarrow> w | Some root \<Rightarrow> Composite root OR_op w)"
    by (auto simp: filter_eqs split: sum.splits)
  from Where_init_kwargs [OF w] assms(2,3)
  have leaf: "w = Leaf (case kw_table kw of None \<Rightarrow> self_table_name s | Some t \<Rightarrow> t)
                    c operator (kw_value kw)"
    by (simp add: default_table_fields)
  show ?thesis
    using root by (cases "self_where s") (auto simp: leaf)
qed

text \<open>
  C7: a filter call made with keyword arguments adds the leaf whose table is the
  \<open>table\<close> argument when one is given and the builder's base table when none is, and
  the leaf renders as the quoted table, a dot, the quoted column, the operator and the
  placeholder; \<open>order_by\<close> and \<open>group_by\<close> qualify their column by the \<open>table\<close>
  argument when one is given and by the base table when none is.
\<close>

theorem C7_table_defaults_to_base:
  "(kw_column kw = Some c \<and> kw_operator kw = Some operator
      \<and> (Select_where None kw s = Inr s' \<or> Select_where_and None kw s = Inr s'
           \<or> Select_where_or None kw s = Inr s') \<longrightarrow>
      map_option last_condition (self_where s') =
        Some (Leaf (case kw_table kw of None \<Rightarrow> self_table_name s | Some t \<Rightarrow> t)
                c operator (kw_value kw)))
   \<and> as_string adapt (Where_sql (Leaf tab col op v)) =
       quote_ident tab @ ''.'' @ quote_ident col @ '' '' @ op
       @ (case v of None \<Rightarrow> '''' | Some x \<Rightarrow> '' %s'')
   \<and> as_string adapt (Select_order_by_sql (Select_order_by column table direction s)) =
       ''ORDER BY '' @ quote_ident (case table of None \<Rightarrow> self_table_name s | Some t \<Rightarrow> t)
       @ ''.'' @ quote_ident column @ '' ''
       @ (case direction of None \<Rightarrow> ''ASC'' | Some d \<Rightarrow> d)
   \<and> as_string adapt (Select_group_by_sql (Select_group_by column table s)) =
       ''GROUP BY '' @ quote_ident (case table of None \<Rightarrow> self_table_name s | Some t \<Rightarrow> t)
       @ ''.'' @ quote_ident column"
proof (intro conjI impI)
  assume "kw_column kw = Some c \<and> kw_operator kw = Some operator
      \<and> (Select_where None kw s = Inr s' \<or> Select_where_and None kw s = Inr s'
           \<or> Select_where_or None kw s = Inr s')"
  then show "map_option last_condition (self_where s') =
        Some (Leaf (case kw_table kw of None \<Rightarrow> self_table_name s | Some t \<Rightarrow> t)
                c operator (kw_value kw))"
    using filter_call_last_condition [of kw s s' c operator] by blast
next
  show "as_string adapt (Where_sql (Leaf tab col op v)) =
       quote_ident tab @ ''.'' @ quote_ident col @ '' '' @ op
       @ (case v of None \<Rightarrow> '''' | Some x \<Rightarrow> '' %s'')"
    by (cases v) simp_all
next
  show "as_string adapt (Select_order_by_sql (Select_order_by column table direction s)) =
       ''ORDER BY '' @ quote_ident (case table of None \<Rightarrow> self_table_name s | Some t \<Rightarrow> t)
       @ ''.'' @ quote_ident column @ '' ''
       @ (case direction of None \<Rightarrow> ''ASC'' | Some d \<Rightarrow> d)"
    by (simp add: Select_order_by_sql_def Select_order_by_def)
next
  show "as_string adapt (Select_group_by_sql (Select_group_by column table s)) =
       ''GROUP BY '' @ quote_ident (case table of None \<Rightarrow> self_table_name s | Some t \<Rightarrow> t)
       @ ''.'' @ quote_ident column"
    by (simp add: Select_group_by_sql_def Select_group_by_def)
qed

theorem C7_table_defaults_to_base_witness:
  "Select_where_and None
     \<lparr>kw_table = None, kw_column = Some ''age'', kw_operator = Some ''>'',
      kw_value = Some (18::int)\<rparr>
     ((Select_init ''users'')\<lparr>self_where := Some (Leaf ''orders'' ''id'' ''='' (Some 5))\<rparr>)
   = Inr ((Select_init ''users'')\<lparr>self_where :=
       Some (Composite (Leaf ''orders'' ''id'' ''='' (Some 5)) AND_op
               (Leaf ''users'' ''age'' ''>'' (Some 18)))\<rparr>)
   \<and> map_option last_condition (self_where ((Select_init ''users'')\<lparr>self_where :=
       Some (Composite (Leaf ''orders'' ''id'' ''='' (Some 5)) AND_op
               (Leaf ''users'' ''age'' ''>'' (Some (18::int))))\<rparr>))
     = Some (Leaf ''users'' ''age'' ''>'' (Some 18))
   \<and> as_string adapt_int (Where_sql (Leaf ''users'' ''age'' ''>'' (Some 18)))
     = ''\"users\".\"age\" > %s''
   \<and> as_string adapt_int (Select_order_by_sql
        (Select_order_by ''name'' None None (Select_init ''users'')))
     = ''ORDER BY \"users\".\"name\" ASC''
   \<and> as_string adapt_int (Select_group_by_sql
        (Select_group_by ''sku'' (Some ''items'') (Select_init ''users'')))
     = ''GROUP BY \"items\".\"sku\"''"
proof -
  let ?kw = "\<lparr>kw_table = None, kw_column = Some ''age'', kw_operator = Some ''>'',
      kw_value = Some (18::int)\<rparr>"
  let ?s = "(Select_init ''users'')\<lparr>self_where := Some (Leaf ''orders'' ''id'' ''='' (Some (5::int)))\<rparr>"
  let ?s' = "(Select_init ''users'')\<lparr>self_where :=
       Some (Composite (Leaf ''orders'' ''id'' ''='' (Some 5)) AND_op
               (Leaf ''users'' ''age'' ''>'' (Some (18::int))))\<rparr>"
  have run: "Select_where_and None ?kw ?s = Inr ?s'"
    by (simp add: filter_eqs Where_init_def default_table_def Select_init_def is_null_check_def)
  note inst = C7_table_defaults_to_base
      [of ?kw "''age''" "''>''" ?s ?s' adapt_int "''users''" "''age''" "''>''" "Some 18"
          "''name''" None None]
  have last: "map_option last_condition (self_where ?s') = Some (Leaf ''users'' ''age'' ''>'' (Some 18))"
  proof -
    from inst run
    have "map_option last_condition (self_where ?s') =
        Some (Leaf (case kw_table ?kw of None \<Rightarrow> self_table_name ?s | Some t \<Rightarrow> t)
                ''age'' ''>'' (kw_value ?kw))"
      by simp
    then show ?thesis by (simp add: Select_init_def)
  qed
  have leaf: "as_string adapt_int (Where_sql (Leaf ''users'' ''age'' ''>'' (Some 18)))
     = ''\"users\".\"age\" > %s''"
    by code_simp
  have ob: "as_string adapt_int (Select_order_by_sql
        (Select_order_by ''name'' None None (Select_init ''users'')))
     = ''ORDER BY \"users\".\"name\" ASC''"
    by code_simp
  have gb: "as_string adapt_int (Select_group_by_sql
        (Select_group_by ''sku'' (Some ''items'') (Select_init ''users'')))
     = ''GROUP BY \"items\".\"sku\"''"
    by code_simp
  show ?thesis using run last leaf ob gb by blast
qed

section \<open>Parameters and markers\<close>

lemma statement_text:
  "as_string adapt (Select_to_sql cfg s) =
     ''SELECT '' @ projection_text adapt cfg s
     @ '' FROM '' @ quote_ident (self_table_name s)
     @ '' '' @ join_text adapt s
     @ '' '' @ where_text adapt s
     @ '' '' @ clause_text adapt (self_order_by s)
     @ '' '' @ clause_text adapt (self_group_by s)
     @ '' '' @ clause_text adapt (self_offset s)
     @ '' '' @ clause_text adapt (self_limit s)"
  by (simp add: to_sql_text projection_text_def join_text_def where_text_def clause_text_def
      to_sql_join_def to_sql_where_def Select_get_join_def Select_order_by_sql_def
      Select_group_by_sql_def Select_offset_sql_def Select_limit_sql_def split: option.splits)

lemma statement_with_values_text:
  "as_string adapt (Select_to_sql_with_values cfg s) =
     ''SELECT '' @ projection_text adapt cfg s
     @ '' FROM '' @ quote_ident (self_table_name s)
     @ '' '' @ join_text adapt s
     @ '' '' @ (case self_where s of
                  None \<Rightarrow> ''''
                | Some w \<Rightarrow> '' WHERE '' @ as_string adapt (Where_sql_with_values w))
     @ '' '' @ clause_text adapt (self_order_by s)
     @ '' '' @ clause_text adapt (self_group_by s)
     @ '' '' @ clause_text adapt (self_offset s)
     @ '' '' @ clause_text adapt (self_limit s)"
  by (simp add: Select_to_sql_with_values_def to_sql_where_with_values_def projection_text_def
      join_text_def clause_text_def to_sql_join_def Select_get_join_def Select_order_by_sql_def
      Select_group_by_sql_def Select_offset_sql_def Select_limit_sql_def Select_table_name_def
      as_string_sql_join split: option.splits)

lemma projection_text_cong:
  "self_distinct s' = self_distinct s \<Longrightarrow> self_join s' = self_join s \<Longrightarrow>
   self_table_name s' = self_table_name s \<Longrightarrow>
   projection_text adapt cfg s' = projection_text adapt cfg s"
  by (simp add: projection_text_def to_sql_columns_def Select_get_join_def Select_table_name_def
      cong: option.case_cong)

lemma percent_free_append [simp]:
  "percent_free (a @ b) \<longleftrightarrow> percent_free a \<and> percent_free b"
  by (auto simp: percent_free_def)

lemma percent_free_Nil [simp]: "percent_free []"
  by (simp add: percent_free_def)

lemma percent_free_Cons [simp]:
  "percent_free (c # cs) \<longleftrightarrow> c \<noteq> CHR ''%'' \<and> percent_free cs"
  by (auto simp: percent_free_def)

lemma percent_free_quote_ident [simp]: "percent_free (quote_ident t) \<longleftrightarrow> percent_free t"
proof -
  have "percent_free (concat (map (\<lambda>c. if c = CHR 0x22 then [CHR 0x22, CHR 0x22] else [c]) t))
        \<longleftrightarrow> percent_free t"
    by (induction t) simp_all
  then show ?thesis by (simp add: quote_ident_def)
qed

lemma then_prepend_twice: "then_prepend a (then_prepend b x) = then_prepend (a @ b) x"
  by (cases x) simp_all

lemma then_prepend_Nil [simp]: "then_prepend [] x = x"
  by (cases x) simp_all

lemma merge_params_text:
  "percent_free t \<Longrightarrow>
   merge_params adapt (t @ rest) ps = then_prepend t (merge_params adapt rest ps)"
  by (induction t) (simp_all add: then_prepend_twice)

lemma merge_params_marker:
  "merge_params adapt (''%s'' @ rest) (p # ps) =
     then_prepend (adapt p) (merge_params adapt rest ps)"
  by simp

lemma merge_params_clean: "percent_free t \<Longrightarrow> merge_params adapt t [] = Inr t"
  using merge_params_text [of t adapt "[]" "[]"] by simp

lemma count_markers_text: "percent_free t \<Longrightarrow> count_markers (t @ rest) = count_markers rest"
  by (induction t) simp_all

lemma count_markers_marker: "count_markers (''%s'' @ rest) = Suc (count_markers rest)"
  by simp

lemma percent_free_bool_op [simp]: "percent_free (bool_op_sql b)"
  by (cases b) simp_all

lemma leaf_text:
  "as_string adapt (Where_sql (Leaf t c operator v)) =
     quote_ident t @ ''.'' @ quote_ident c @ '' '' @ operator
     @ (case v of None \<Rightarrow> '''' | Some x \<Rightarrow> '' %s'')"
  by (cases v) simp_all

lemma leaf_with_values_text:
  "as_string adapt (Where_sql_with_values (Leaf t c operator v)) =
     quote_ident t @ ''.'' @ quote_ident c @ '' '' @ operator
     @ (case v of None \<Rightarrow> '''' | Some x \<Rightarrow> '' '' @ adapt x)"
  by (cases v) simp_all

lemma merge_params_where:
  "percent_free_where w \<Longrightarrow>
   merge_params adapt (as_string adapt (Where_sql w) @ tail) (Where_params w @ rest) =
     then_prepend (as_string adapt (Where_sql_with_values w)) (merge_params adapt tail rest)"
proof (induction w arbitrary: tail rest)
  case (Leaf t c operator v)
  let ?head = "quote_ident t @ ''.'' @ quote_ident c @ '' '' @ operator"
  have head: "percent_free ?head" using Leaf by simp
  show ?case
  proof (cases v)
    case None
    then show ?thesis
      using merge_params_text [OF head, of adapt tail rest] by simp
  next
    case (Some x)
    have "percent_free (?head @ '' '')" using head by simp
    from merge_params_text [OF this, of adapt "''%s'' @ tail" "x # rest"]
    show ?thesis
      using Some by (simp add: then_prepend_twice)
  qed
next
  case (Composite l b r)
  have l: "percent_free_where l" and r: "percent_free_where r"
    using Composite.prems by simp_all
  have "merge_params adapt (as_string adapt (Where_sql (Composite l b r)) @ tail)
          (Where_params (Composite l b r) @ rest)
        = merge_params adapt
            (''('' @ as_string adapt (Where_sql l)
               @ (bool_op_sql b @ as_string adapt (Where_sql r) @ ('')'' @ tail)))
            (Where_params l @ (Where_params r @ rest))"
    by simp
  also have "\<dots> = then_prepend ''(''
      (merge_params adapt (as_string adapt (Where_sql l)
               @ (bool_op_sql b @ as_string adapt (Where_sql r) @ ('')'' @ tail)))
            (Where_params l @ (Where_params r @ rest)))"
    by (rule merge_params_text) simp
  also have "\<dots> = then_prepend ''(''
      (then_prepend (as_string adapt (Where_sql_with_values l))
        (merge_params adapt (bool_op_sql b @ as_string adapt (Where_sql r) @ ('')'' @ tail))
            (Where_params r @ rest)))"
    by (simp only: Composite.IH(1) [OF l])
  also have "\<dots> = then_prepend ''(''
      (then_prepend (as_string adapt (Where_sql_with_values l))
        (then_prepend (bool_op_sql b)
          (merge_params adapt (as_string adapt (Where_sql r) @ ('')'' @ tail))
            (Where_params r @ rest))))"
    by (simp only: merge_params_text [OF percent_free_bool_op])
  also have "\<dots> = then_prepend ''(''
      (then_prepend (as_string adapt (Where_sql_with_values l))
        (then_prepend (bool_op_sql b)
          (then_prepend (as_string adapt (Where_sql_with_values r))
            (merge_params adapt ('')'' @ tail) rest))))"
    by (simp only: Composite.IH(2) [OF r])
  also have "\<dots> = then_prepend ''(''
      (then_prepend (as_string adapt (Where_sql_with_values l))
        (then_prepend (bool_op_sql b)
          (then_prepend (as_string adapt (Where_sql_with_values r))
            (then_prepend '')'' (merge_params adapt tail rest)))))"
    by (subst merge_params_text [of "'')''"]) simp_all
  also have "\<dots> = then_prepend (as_string adapt (Where_sql_with_values (Composite l b r)))
      (merge_params adapt tail rest)"
    by (simp add: then_prepend_twice)
  finally show ?case .
qed

lemma count_markers_where:
  "percent_free_where w \<Longrightarrow>
   count_markers (as_string adapt (Where_sql w) @ tail) = length (Where_params w) + count_markers tail"
proof (induction w arbitrary: tail)
  case (Leaf t c operator v)
  let ?head = "quote_ident t @ ''.'' @ quote_ident c @ '' '' @ operator"
  have head: "percent_free ?head" using Leaf by simp
  show ?case
  proof (cases v)
    case None
    then show ?thesis using count_markers_text [OF head, of tail] by simp
  next
    case (Some x)
    have "percent_free (?head @ '' '')" using head by simp
    from count_markers_text [OF this, of "''%s'' @ tail"]
    show ?thesis using Some by simp
  qed
next
  case (Composite l b r)
  have l: "percent_free_where l" and r: "percent_free_where r"
    using Composite.prems by simp_all
  have "count_markers (as_string adapt (Where_sql (Composite l b r)) @ tail)
        = count_markers (''('' @ as_string adapt (Where_sql l)
               @ (bool_op_sql b @ as_string adapt (Where_sql r) @ ('')'' @ tail)))"
    by simp
  also have "\<dots> = length (Where_params l) + (length (Where_params r) + count_markers tail)"
    using count_markers_text [of "''(''"] count_markers_text [of "'')''" tail]
      count_markers_text [of "bool_op_sql b"] Composite.IH(1) [OF l] Composite.IH(2) [OF r]
    by simp
  finally show ?case by simp
qed

lemma Where_sql_without_values:
  "Where_params w = [] \<Longrightarrow> Where_sql_with_values w = Where_sql w"
proof (induction w)
  case (Leaf t c operator v)
  then show ?case by (cases v) simp_all
next
  case (Composite l b r)
  then show ?case by simp
qed

lemma to_sql_without_values:
  "Select_get_params s = [] \<Longrightarrow> Select_to_sql_with_values cfg s = Select_to_sql cfg s"
  by (cases "self_where s")
     (simp_all add: Select_to_sql_with_values_def Select_to_sql_def to_sql_where_def
        to_sql_where_with_values_def Select_get_params_def Where_sql_without_values)

lemma statement_split:
  "as_string adapt (Select_to_sql cfg s) =
     (''SELECT '' @ projection_text adapt cfg s @ '' FROM '' @ quote_ident (self_table_name s)
        @ '' '' @ join_text adapt s @ '' '')
     @ where_text adapt s
     @ ('' '' @ clause_text adapt (self_order_by s) @ '' '' @ clause_text adapt (self_group_by s)
        @ '' '' @ clause_text adapt (self_offset s) @ '' '' @ clause_text adapt (self_limit s))"
  by (simp add: statement_text)

lemma statement_with_values_split:
  "as_string adapt (Select_to_sql_with_values cfg s) =
     (''SELECT '' @ projection_text adapt cfg s @ '' FROM '' @ quote_ident (self_table_name s)
        @ '' '' @ join_text adapt s @ '' '')
     @ (case self_where s of
          None \<Rightarrow> ''''
        | Some w \<Rightarrow> '' WHERE '' @ as_string adapt (Where_sql_with_values w))
     @ ('' '' @ clause_text adapt (self_order_by s) @ '' '' @ clause_text adapt (self_group_by s)
        @ '' '' @ clause_text adapt (self_offset s) @ '' '' @ clause_text adapt (self_limit s))"
  by (simp add: statement_with_values_text)

lemma merge_params_statement:
  assumes around: "percent_free_around_where adapt cfg s" and filter: "percent_free_filter s"
  shows "merge_params adapt (as_string adapt (Select_to_sql cfg s)) (Select_get_params s)
         = Inr (as_string adapt (Select_to_sql_with_values cfg s))"
proof -
  let ?pre = "''SELECT '' @ projection_text adapt cfg s @ '' FROM ''
     @ quote_ident (self_table_name s) @ '' '' @ join_text adapt s @ '' ''"
  let ?post = "'' '' @ clause_text adapt (self_order_by s) @ '' ''
     @ clause_text adapt (self_group_by s) @ '' '' @ clause_text adapt (self_offset s)
     @ '' '' @ clause_text adapt (self_limit s)"
  have pre: "percent_free ?pre" and post: "percent_free ?post"
    using around by (simp_all add: percent_free_around_where_def)
  show ?thesis
  proof (cases "self_where s")
    case None
    have "percent_free (?pre @ ?post)" using pre post by (simp only: percent_free_append)
    then have "merge_params adapt (?pre @ ?post) [] = Inr (?pre @ ?post)"
      by (rule merge_params_clean)
    then show ?thesis
      by (simp add: statement_split statement_with_values_split where_text_def None
          Select_get_params_def)
  next
    case (Some w)
    then have w: "percent_free_where w" using filter by (simp add: percent_free_filter_def)
    have head: "percent_free (?pre @ '' WHERE '')" using pre by simp
    have "merge_params adapt ((?pre @ '' WHERE '') @ (as_string adapt (Where_sql w) @ ?post))
            (Where_params w @ [])
          = then_prepend (?pre @ '' WHERE '')
              (then_prepend (as_string adapt (Where_sql_with_values w))
                 (merge_params adapt ?post []))"
      by (simp only: merge_params_text [OF head] merge_params_where [OF w])
    also have "\<dots> = Inr ((?pre @ '' WHERE '') @ as_string adapt (Where_sql_with_values w) @ ?post)"
      by (simp only: merge_params_clean [OF post] then_prepend.simps)
    finally show ?thesis
      by (simp add: statement_split statement_with_values_split where_text_def Some
          Select_get_params_def)
  qed
qed

lemma count_markers_clean: "percent_free t \<Longrightarrow> count_markers t = 0"
  using count_markers_text [of t "[]"] by simp

lemma count_markers_statement:
  assumes around: "percent_free_around_where adapt cfg s" and filter: "percent_free_filter s"
  shows "count_markers (as_string adapt (Select_to_sql cfg s)) = length (Select_get_params s)"
proof -
  let ?pre = "''SELECT '' @ projection_text adapt cfg s @ '' FROM ''
     @ quote_ident (self_table_name s) @ '' '' @ join_text adapt s @ '' ''"
  let ?post = "'' '' @ clause_text adapt (self_order_by s) @ '' ''
     @ clause_text adapt (self_group_by s) @ '' '' @ clause_text adapt (self_offset s)
     @ '' '' @ clause_text adapt (self_limit s)"
  have pre: "percent_free ?pre" and post: "percent_free ?post"
    using around by (simp_all add: percent_free_around_where_def)
  show ?thesis
  proof (cases "self_where s")
    case None
    have "percent_free (?pre @ ?post)" using pre post by (simp only: percent_free_append)
    then have "count_markers (?pre @ ?post) = 0" by (rule count_markers_clean)
    then show ?thesis
      by (simp add: statement_split where_text_def None Select_get_params_def)
  next
    case (Some w)
    then have w: "percent_free_where w" using filter by (simp add: percent_free_filter_def)
    have head: "percent_free (?pre @ '' WHERE '')" using pre by simp
    have "count_markers ((?pre @ '' WHERE '') @ (as_string adapt (Where_sql w) @ ?post))
          = length (Where_params w) + count_markers ?post"
      by (simp only: count_markers_text [OF head] count_markers_where [OF w])
    also have "\<dots> = length (Where_params w)"
      by (simp only: count_markers_clean [OF post] add_0_right)
    finally show ?thesis
      by (simp add: statement_split where_text_def Some Select_get_params_def)
  qed
qed

lemma execute_query_statement:
  assumes "percent_free_around_where adapt cfg s" and "percent_free_filter s"
  shows "Select_execute_query adapt cfg s = Inr (as_string adapt (Select_to_sql_with_values cfg s))"
  using merge_params_statement [OF assms]
  by (simp add: Select_execute_query_def to_sql_without_values)

lemma direction_calls_run:
  "calls direction_calls (Select_init ''users'') = Inr ([Self, Self], direction_select)"
  by (simp add: direction_calls_def direction_select_def filter_eqs Where_init_def
      default_table_def is_null_check_def Select_init_def Select_order_by_def)

text \<open>
  C2, as the specification states it: for every builder the Nth placeholder of the final
  statement belongs to the Nth element of \<open>get_params\<close>. It fails where text of the
  caller holds a marker of its own: with the direction \<open>%s\<close> behind one filter, the
  statement holds two markers and \<open>get_params\<close> one element, so the second marker has
  no parameter and \<open>execute\<close> ends in the driver's error.
\<close>

theorem C2_direction_adds_a_marker:
  "calls direction_calls (Select_init ''users'') = Inr ([Self, Self], direction_select)
   \<and> as_string adapt_int (Select_to_sql users_catalog direction_select) =
       ''SELECT \"users\".\"id\",\"users\".\"name\" FROM \"users\"   WHERE \"users\".\"id\" = %s ORDER BY \"users\".\"name\" %s   ''
   \<and> Select_get_params direction_select = [5]
   \<and> count_markers (as_string adapt_int (Select_to_sql users_catalog direction_select)) = 2
   \<and> Select_execute_query adapt_int users_catalog direction_select = Inl Too_few_params"
proof -
  have text_eq: "as_string adapt_int (Select_to_sql users_catalog direction_select) =
       ''SELECT \"users\".\"id\",\"users\".\"name\" FROM \"users\"   WHERE \"users\".\"id\" = %s ORDER BY \"users\".\"name\" %s   ''"
    by code_simp
  have params: "Select_get_params direction_select = [5]"
    by (simp add: direction_select_def Select_get_params_def)
  have count: "count_markers (as_string adapt_int (Select_to_sql users_catalog direction_select)) = 2"
    unfolding text_eq by simp
  have sent: "Select_execute_query adapt_int users_catalog direction_select = Inl Too_few_params"
    unfolding Select_execute_query_def text_eq params by simp
  show ?thesis
    using direction_calls_run text_eq params count sent by (intro conjI)
qed

text \<open>
  C2, amended: \<open>get_params\<close> returns the parameters of the filter tree, and the empty
  list on a builder no filter call was made on. When no table name, column name or
  operator of the filter holds a \<open>%\<close>, the filter fragment holds as many markers as the
  tree has parameters, and merging the parameters in from left to right puts every
  value at its own leaf. When, besides, the statement holds no \<open>%\<close> in front of and
  behind the filter fragment (in the projection, the table name, the join, the order,
  group, offset and limit clauses), the markers of the filter are the only markers of the
  final statement: it holds as many markers as \<open>get_params\<close> has elements, merging
  \<open>get_params\<close> into it yields the statement with every value at its own leaf, and
  that is the statement \<open>execute\<close> sends.
\<close>

theorem C2_params_follow_markers:
  "Select_get_params s = (case self_where s of None \<Rightarrow> [] | Some w \<Rightarrow> Where_params w)
   \<and> (calls cs (Select_init t) = Inr (rs, s) \<and> \<not> list_ex sets_where cs \<longrightarrow>
        Select_get_params s = [])
   \<and> (percent_free_where w \<longrightarrow>
        count_markers (as_string adapt (Where_sql w)) = length (Where_params w)
        \<and> merge_params adapt (as_string adapt (Where_sql w)) (Where_params w)
            = Inr (as_string adapt (Where_sql_with_values w)))
   \<and> (percent_free_around_where adapt cfg s \<and> percent_free_filter s \<longrightarrow>
        count_markers (as_string adapt (Select_to_sql cfg s)) = length (Select_get_params s)
        \<and> merge_params adapt (as_string adapt (Select_to_sql cfg s)) (Select_get_params s)
            = Inr (as_string adapt (Select_to_sql_with_values cfg s))
        \<and> Select_execute_query adapt cfg s
            = Inr (as_string adapt (Select_to_sql_with_values cfg s)))"
proof (intro conjI impI)
  show "Select_get_params s = (case self_where s of None \<Rightarrow> [] | Some w \<Rightarrow> Where_params w)"
    by (simp add: Select_get_params_def)
next
  assume "calls cs (Select_init t) = Inr (rs, s) \<and> \<not> list_ex sets_where cs"
  then have "self_where s = None"
    using calls_keep_where [of cs "Select_init t" rs s] by (simp add: Select_init_def)
  then show "Select_get_params s = []"
    by (simp add: Select_get_params_def)
next
  assume w: "percent_free_where w"
  show "count_markers (as_string adapt (Where_sql w)) = length (Where_params w)"
    using count_markers_where [OF w, of adapt "[]"] by simp
  show "merge_params adapt (as_string adapt (Where_sql w)) (Where_params w)
        = Inr (as_string adapt (Where_sql_with_values w))"
    using merge_params_where [OF w, of adapt "[]" "[]"] by simp
next
  assume h: "percent_free_around_where adapt cfg s \<and> percent_free_filter s"
  then have around: "percent_free_around_where adapt cfg s" and filter: "percent_free_filter s"
    by simp_all
  show "count_markers (as_string adapt (Select_to_sql cfg s)) = length (Select_get_params s)"
    using around filter by (rule count_markers_statement)
  show "merge_params adapt (as_string adapt (Select_to_sql cfg s)) (Select_get_params s)
        = Inr (as_string adapt (Select_to_sql_with_values cfg s))"
    using around filter by (rule merge_params_statement)
  show "Select_execute_query adapt cfg s
        = Inr (as_string adapt (Select_to_sql_with_values cfg s))"
    using around filter by (rule execute_query_statement)
qed

lemma shop_calls_run:
  "calls shop_calls (Select_init ''users'') = Inr ([Self, Self, Self, Self], shop_filtered)"
  by (simp add: shop_calls_def shop_filtered_def filter_eqs Where_init_def default_table_def
      is_null_check_def Select_init_def Select_join_def Select_limit_def)

theorem C2_params_follow_markers_witness:
  "calls shop_calls (Select_init ''users'') = Inr ([Self, Self, Self, Self], shop_filtered)
   \<and> percent_free_around_where adapt_int shop_catalog shop_filtered
   \<and> percent_free_filter shop_filtered
   \<and> Select_get_params shop_filtered = [5, 18]
   \<and> as_string adapt_int (Select_to_sql shop_catalog shop_filtered) =
       ''SELECT \"users\".\"id\",\"users\".\"name\",\"orders\".\"id\",\"orders\".\"user_id\" FROM \"users\" JOIN \"orders\" ON o  WHERE (\"users\".\"id\" = %s OR \"orders\".\"user_id\" > %s)    LIMIT 10''
   \<and> count_markers (as_string adapt_int (Select_to_sql shop_catalog shop_filtered)) = 2
   \<and> Select_execute_query adapt_int shop_catalog shop_filtered =
       Inr ''SELECT \"users\".\"id\",\"users\".\"name\",\"orders\".\"id\",\"orders\".\"user_id\" FROM \"users\" JOIN \"orders\" ON o  WHERE (\"users\".\"id\" = 5 OR \"orders\".\"user_id\" > 18)    LIMIT 10''"
proof -
  have around: "percent_free_around_where adapt_int shop_catalog shop_filtered"
    by code_simp
  have filter: "percent_free_filter shop_filtered"
    by code_simp
  have params: "Select_get_params shop_filtered = [5, 18]"
    by (simp add: shop_filtered_def Select_get_params_def)
  note inst = C2_params_follow_markers
      [of shop_filtered shop_calls "''users''" "[Self, Self, Self, Self]" _ adapt_int shop_catalog]
  have "count_markers (as_string adapt_int (Select_to_sql shop_catalog shop_filtered))
        = length (Select_get_params shop_filtered)"
    using inst around filter by blast
  then have count: "count_markers (as_string adapt_int (Select_to_sql shop_catalog shop_filtered)) = 2"
    by (simp add: params)
  have sent: "Select_execute_query adapt_int shop_catalog shop_filtered
        = Inr (as_string adapt_int (Select_to_sql_with_values shop_catalog shop_filtered))"
    using inst around filter by blast
  have text1: "as_string adapt_int (Select_to_sql shop_catalog shop_filtered) =
       ''SELECT \"users\".\"id\",\"users\".\"name\",\"orders\".\"id\",\"orders\".\"user_id\" FROM \"users\" JOIN \"orders\" ON o  WHERE (\"users\".\"id\" = %s OR \"orders\".\"user_id\" > %s)    LIMIT 10''"
    by code_simp
  have text2: "as_string adapt_int (Select_to_sql_with_values shop_catalog shop_filtered) =
       ''SELECT \"users\".\"id\",\"users\".\"name\",\"orders\".\"id\",\"orders\".\"user_id\" FROM \"users\" JOIN \"orders\" ON o  WHERE (\"users\".\"id\" = 5 OR \"orders\".\"user_id\" > 18)    LIMIT 10''"
    by code_simp
  have sent': "Select_execute_query adapt_int shop_catalog shop_filtered =
       Inr ''SELECT \"users\".\"id\",\"users\".\"name\",\"orders\".\"id\",\"orders\".\"user_id\" FROM \"users\" JOIN \"orders\" ON o  WHERE (\"users\".\"id\" = 5 OR \"orders\".\"user_id\" > 18)    LIMIT 10''"
    unfolding sent text2 ..
  show ?thesis
    using shop_calls_run around filter params text1 count sent' by (intro conjI)
qed

section \<open>The order of the clauses\<close>

lemma unset_clauses_are_empty:
  assumes "calls cs (Select_init t) = Inr (rs, s)"
  shows "\<not> list_ex sets_join cs \<Longrightarrow> join_text adapt s = ''''"
    and "\<not> list_ex sets_where cs \<Longrightarrow> where_text adapt s = ''''"
    and "\<not> list_ex sets_order_by cs \<Longrightarrow> clause_text adapt (self_order_by s) = ''''"
    and "\<not> list_ex sets_group_by cs \<Longrightarrow> clause_text adapt (self_group_by s) = ''''"
    and "\<not> list_ex sets_offset cs \<Longrightarrow> clause_text adapt (self_offset s) = ''''"
    and "\<not> list_ex sets_limit cs \<Longrightarrow> clause_text adapt (self_limit s) = ''''"
  using calls_keep_join [OF assms] calls_keep_where [OF assms] calls_keep_order_by [OF assms]
    calls_keep_group_by [OF assms] calls_keep_offset [OF assms] calls_keep_limit [OF assms]
  by (simp_all add: Select_init_def join_text_def where_text_def clause_text_def)

lemma order_by_before_group_by:
  "as_string adapt (Select_to_sql cfg (Select_group_by gc gt (Select_order_by oc ot od s))) =
     ''SELECT '' @ projection_text adapt cfg s
     @ '' FROM '' @ quote_ident (self_table_name s)
     @ '' '' @ join_text adapt s
     @ '' '' @ where_text adapt s
     @ '' '' @ ''ORDER BY '' @ quote_ident (case ot of None \<Rightarrow> self_table_name s | Some x \<Rightarrow> x)
       @ ''.'' @ quote_ident oc @ '' '' @ (case od of None \<Rightarrow> ''ASC'' | Some d \<Rightarrow> d)
     @ '' '' @ ''GROUP BY '' @ quote_ident (case gt of None \<Rightarrow> self_table_name s | Some x \<Rightarrow> x)
       @ ''.'' @ quote_ident gc
     @ '' '' @ clause_text adapt (self_offset s)
     @ '' '' @ clause_text adapt (self_limit s)"
proof -
  let ?s' = "Select_group_by gc gt (Select_order_by oc ot od s)"
  have same: "projection_text adapt cfg ?s' = projection_text adapt cfg s"
    by (rule projection_text_cong) (simp_all add: Select_group_by_def Select_order_by_def)
  show ?thesis
    by (simp add: statement_text [of adapt cfg ?s'] same)
       (simp add: Select_group_by_def Select_order_by_def join_text_def where_text_def
          clause_text_def split: option.splits)
qed

text \<open>
  C3: the statement of a builder with both an order and a group. The template of
  \<open>to_sql\<close> puts the order clause in front of the group clause, so the statement reads
  \<open>ORDER BY\<close> and then \<open>GROUP BY\<close>, an order of clauses the grammar of the database
  does not have.
\<close>

theorem C3_order_by_in_front_of_group_by:
  "as_string adapt_int (Select_to_sql users_catalog ordered_grouped) =
     ''SELECT \"users\".\"id\",\"users\".\"name\" FROM \"users\"   ORDER BY \"users\".\"id\" DESC GROUP BY \"users\".\"id\"  ''"
  by code_simp

section \<open>Last call wins\<close>

lemma statement_after_order_by:
  "as_string adapt (Select_to_sql cfg (Select_order_by c t d s)) =
     ''SELECT '' @ projection_text adapt cfg s
     @ '' FROM '' @ quote_ident (self_table_name s)
     @ '' '' @ join_text adapt s
     @ '' '' @ where_text adapt s
     @ '' '' @ ''ORDER BY '' @ quote_ident (case t of None \<Rightarrow> self_table_name s | Some x \<Rightarrow> x)
       @ ''.'' @ quote_ident c @ '' '' @ (case d of None \<Rightarrow> ''ASC'' | Some x \<Rightarrow> x)
     @ '' '' @ clause_text adapt (self_group_by s)
     @ '' '' @ clause_text adapt (self_offset s)
     @ '' '' @ clause_text adapt (self_limit s)"
proof -
  let ?s' = "Select_order_by c t d s"
  have same: "projection_text adapt cfg ?s' = projection_text adapt cfg s"
    by (rule projection_text_cong) (simp_all add: Select_order_by_def)
  show ?thesis
    by (simp add: statement_text [of adapt cfg ?s'] same)
       (simp add: Select_order_by_def join_text_def where_text_def clause_text_def)
qed

lemma statement_after_group_by:
  "as_string adapt (Select_to_sql cfg (Select_group_by c t s)) =
     ''SELECT '' @ projection_text adapt cfg s
     @ '' FROM '' @ quote_ident (self_table_name s)
     @ '' '' @ join_text adapt s
     @ '' '' @ where_text adapt s
     @ '' '' @ clause_text adapt (self_order_by s)
     @ '' '' @ ''GROUP BY '' @ quote_ident (case t of None \<Rightarrow> self_table_name s | Some x \<Rightarrow> x)
       @ ''.'' @ quote_ident c
     @ '' '' @ clause_text adapt (self_offset s)
     @ '' '' @ clause_text adapt (self_limit s)"
proof -
  let ?s' = "Select_group_by c t s"
  have same: "projection_text adapt cfg ?s' = projection_text adapt cfg s"
    by (rule projection_text_cong) (simp_all add: Select_group_by_def)
  show ?thesis
    by (simp add: statement_text [of adapt cfg ?s'] same)
       (simp add: Select_group_by_def join_text_def where_text_def clause_text_def)
qed

lemma statement_after_offset:
  "as_string adapt (Select_to_sql cfg (Select_offset v s)) =
     ''SELECT '' @ projection_text adapt cfg s
     @ '' FROM '' @ quote_ident (self_table_name s)
     @ '' '' @ join_text adapt s
     @ '' '' @ where_text adapt s
     @ '' '' @ clause_text adapt (self_order_by s)
     @ '' '' @ clause_text adapt (self_group_by s)
     @ '' '' @ ''OFFSET '' @ adapt v
     @ '' '' @ clause_text adapt (self_limit s)"
proof -
  let ?s' = "Select_offset v s"
  have same: "projection_text adapt cfg ?s' = projection_text adapt cfg s"
    by (rule projection_text_cong) (simp_all add: Select_offset_def)
  show ?thesis
    by (simp add: statement_text [of adapt cfg ?s'] same)
       (simp add: Select_offset_def join_text_def where_text_def clause_text_def)
qed

lemma statement_after_limit:
  "as_string adapt (Select_to_sql cfg (Select_limit v s)) =
     ''SELECT '' @ projection_text adapt cfg s
     @ '' FROM '' @ quote_ident (self_table_name s)
     @ '' '' @ join_text adapt s
     @ '' '' @ where_text adapt s
     @ '' '' @ clause_text adapt (self_order_by s)
     @ '' '' @ clause_text adapt (self_group_by s)
     @ '' '' @ clause_text adapt (self_offset s)
     @ '' '' @ ''LIMIT '' @ adapt v"
proof -
  let ?s' = "Select_limit v s"
  have same: "projection_text adapt cfg ?s' = projection_text adapt cfg s"
    by (rule projection_text_cong) (simp_all add: Select_limit_def)
  show ?thesis
    by (simp add: statement_text [of adapt cfg ?s'] same)
       (simp add: Select_limit_def join_text_def where_text_def clause_text_def)
qed

lemma statement_after_distinct:
  "as_string adapt (Select_to_sql cfg (Select_distinct a s)) =
     ''SELECT '' @ ''DISTINCT '' @ distinct_columns_text a
     @ '' FROM '' @ quote_ident (self_table_name s)
     @ '' '' @ join_text adapt s
     @ '' '' @ where_text adapt s
     @ '' '' @ clause_text adapt (self_order_by s)
     @ '' '' @ clause_text adapt (self_group_by s)
     @ '' '' @ clause_text adapt (self_offset s)
     @ '' '' @ clause_text adapt (self_limit s)"
proof -
  let ?s' = "Select_distinct a s"
  obtain d where d: "self_distinct ?s' = Some d"
    "as_string adapt d = ''DISTINCT '' @ distinct_columns_text a"
    using Select_distinct_text [of a s adapt] by blast
  have proj: "projection_text adapt cfg ?s' = ''DISTINCT '' @ distinct_columns_text a"
    by (simp add: projection_text_def d)
  show ?thesis
    by (simp add: statement_text [of adapt cfg ?s'] proj)
       (simp add: Select_distinct_fields join_text_def where_text_def)
qed

text \<open>
  C8: a second call of \<open>order_by\<close>, \<open>group_by\<close>, \<open>limit\<close>, \<open>offset\<close> or
  \<open>distinct\<close> replaces what the first one set. The builder after both calls is the
  builder after the second call alone, and so is its statement. The clause it holds is
  the clause of the second call: one column for the order and one for the group, the
  value of the second \<open>limit\<close> or \<open>offset\<close>, the columns of the second
  \<open>distinct\<close>; and the statement holds that clause at its place, with nothing of the
  first call in it.
\<close>

theorem C8_last_call_wins:
  "Select_order_by c2 t2 d2 (Select_order_by c1 t1 d1 s) = Select_order_by c2 t2 d2 s
   \<and> Select_group_by c2 t2 (Select_group_by c1 t1 s) = Select_group_by c2 t2 s
   \<and> Select_limit l2 (Select_limit l1 s) = Select_limit l2 s
   \<and> Select_offset o2 (Select_offset o1 s) = Select_offset o2 s
   \<and> Select_distinct a2 (Select_distinct a1 s) = Select_distinct a2 s
   \<and> Select_to_sql cfg (Select_order_by c2 t2 d2 (Select_order_by c1 t1 d1 s))
       = Select_to_sql cfg (Select_order_by c2 t2 d2 s)
   \<and> Select_to_sql cfg (Select_group_by c2 t2 (Select_group_by c1 t1 s))
       = Select_to_sql cfg (Select_group_by c2 t2 s)
   \<and> Select_to_sql cfg (Select_limit l2 (Select_limit l1 s))
       = Select_to_sql cfg (Select_limit l2 s)
   \<and> Select_to_sql cfg (Select_offset o2 (Select_offset o1 s))
       = Select_to_sql cfg (Select_offset o2 s)
   \<and> Select_to_sql cfg (Select_distinct a2 (Select_distinct a1 s))
       = Select_to_sql cfg (Select_distinct a2 s)
   \<and> as_string adapt (Select_order_by_sql (Select_order_by c2 t2 d2 (Select_order_by c1 t1 d1 s)))
       = ''ORDER BY '' @ quote_ident (case t2 of None \<Rightarrow> self_table_name s | Some t \<Rightarrow> t)
         @ ''.'' @ quote_ident c2 @ '' '' @ (case d2 of None \<Rightarrow> ''ASC'' | Some d \<Rightarrow> d)
   \<and> as_string adapt (Select_group_by_sql (Select_group_by c2 t2 (Select_group_by c1 t1 s)))
       = ''GROUP BY '' @ quote_ident (case t2 of None \<Rightarrow> self_table_name s | Some t \<Rightarrow> t)
         @ ''.'' @ quote_ident c2
   \<and> as_string adapt (Select_limit_sql (Select_limit l2 (Select_limit l1 s)))
       = ''LIMIT '' @ adapt l2
   \<and> as_string adapt (Select_offset_sql (Select_offset o2 (Select_offset o1 s)))
       = ''OFFSET '' @ adapt o2
   \<and> clause_text adapt (self_distinct (Select_distinct a2 (Select_distinct a1 s)))
       = ''DISTINCT '' @ distinct_columns_text a2
   \<and> as_string adapt (Select_to_sql cfg (Select_order_by c2 t2 d2 (Select_order_by c1 t1 d1 s)))
       = ''SELECT '' @ projection_text adapt cfg s
         @ '' FROM '' @ quote_ident (self_table_name s)
         @ '' '' @ join_text adapt s
         @ '' '' @ where_text adapt s
         @ '' '' @ ''ORDER BY ''
           @ quote_ident (case t2 of None \<Rightarrow> self_table_name s | Some t \<Rightarrow> t)
           @ ''.'' @ quote_ident c2 @ '' '' @ (case d2 of None \<Rightarrow> ''ASC'' | Some d \<Rightarrow> d)
         @ '' '' @ clause_text adapt (self_group_by s)
         @ '' '' @ clause_text adapt (self_offset s)
         @ '' '' @ clause_text adapt (self_limit s)
   \<and> as_string adapt (Select_to_sql cfg (Select_group_by c2 t2 (Select_group_by c1 t1 s)))
       = ''SELECT '' @ projection_text adapt cfg s
         @ '' FROM '' @ quote_ident (self_table_name s)
         @ '' '' @ join_text adapt s
         @ '' '' @ where_text adapt s
         @ '' '' @ clause_text adapt (self_order_by s)
         @ '' '' @ ''GROUP BY ''
           @ quote_ident (case t2 of None \<Rightarrow> self_table_name s | Some t \<Rightarrow> t)
           @ ''.'' @ quote_ident c2
         @ '' '' @ clause_text adapt (self_offset s)
         @ '' '' @ clause_text adapt (self_limit s)
   \<and> as_string adapt (Select_to_sql cfg (Select_offset o2 (Select_offset o1 s)))
       = ''SELECT '' @ projection_text adapt cfg s
         @ '' FROM '' @ quote_ident (self_table_name s)
         @ '' '' @ join_text adapt s
         @ '' '' @ where_text adapt s
         @ '' '' @ clause_text adapt (self_order_by s)
         @ '' '' @ clause_text adapt (self_group_by s)
         @ '' '' @ ''OFFSET '' @ adapt o2
         @ '' '' @ clause_text adapt (self_limit s)
   \<and> as_string adapt (Select_to_sql cfg (Select_limit l2 (Select_limit l1 s)))
       = ''SELECT '' @ projection_text adapt cfg s
         @ '' FROM '' @ quote_ident (self_table_name s)
         @ '' '' @ join_text adapt s
         @ '' '' @ where_text adapt s
         @ '' '' @ clause_text adapt (self_order_by s)
         @ '' '' @ clause_text adapt (self_group_by s)
         @ '' '' @ clause_text adapt (self_offset s)
         @ '' '' @ ''LIMIT '' @ adapt l2
   \<and> as_string adapt (Select_to_sql cfg (Select_distinct a2 (Select_distinct a1 s)))
       = ''SELECT '' @ ''DISTINCT '' @ distinct_columns_text a2
         @ '' FROM '' @ quote_ident (self_table_name s)
         @ '' '' @ join_text adapt s
         @ '' '' @ where_text adapt s
         @ '' '' @ clause_text adapt (self_order_by s)
         @ '' '' @ clause_text adapt (self_group_by s)
         @ '' '' @ clause_text adapt (self_offset s)
         @ '' '' @ clause_text adapt (self_limit s)"
proof -
  have ob: "Select_order_by c2 t2 d2 (Select_order_by c1 t1 d1 s) = Select_order_by c2 t2 d2 s"
    by (cases t2) (simp_all add: Select_order_by_def)
  have gb: "Select_group_by c2 t2 (Select_group_by c1 t1 s) = Select_group_by c2 t2 s"
    by (cases t2) (simp_all add: Select_group_by_def)
  have li: "Select_limit l2 (Select_limit l1 s) = Select_limit l2 s"
    by (simp add: Select_limit_def)
  have off: "Select_offset o2 (Select_offset o1 s) = Select_offset o2 s"
    by (simp add: Select_offset_def)
  have di: "Select_distinct a2 (Select_distinct a1 s) = Select_distinct a2 s"
    by (rule Select_distinct_twice)
  have obt: "as_string adapt (Select_order_by_sql (Select_order_by c2 t2 d2 s))
       = ''ORDER BY '' @ quote_ident (case t2 of None \<Rightarrow> self_table_name s | Some t \<Rightarrow> t)
         @ ''.'' @ quote_ident c2 @ '' '' @ (case d2 of None \<Rightarrow> ''ASC'' | Some d \<Rightarrow> d)"
    by (simp add: Select_order_by_sql_def Select_order_by_def)
  have gbt: "as_string adapt (Select_group_by_sql (Select_group_by c2 t2 s))
       = ''GROUP BY '' @ quote_ident (case t2 of None \<Rightarrow> self_table_name s | Some t \<Rightarrow> t)
         @ ''.'' @ quote_ident c2"
    by (simp add: Select_group_by_sql_def Select_group_by_def)
  have lit: "as_string adapt (Select_limit_sql (Select_limit l2 s)) = ''LIMIT '' @ adapt l2"
    by (simp add: Select_limit_sql_def Select_limit_def)
  have oft: "as_string adapt (Select_offset_sql (Select_offset o2 s)) = ''OFFSET '' @ adapt o2"
    by (simp add: Select_offset_sql_def Select_offset_def)
  have dit: "clause_text adapt (self_distinct (Select_distinct a2 s))
       = ''DISTINCT '' @ distinct_columns_text a2"
    using Select_distinct_text [of a2 s adapt] by (auto simp: clause_text_def)
  show ?thesis
    unfolding ob gb li off di
    using obt gbt lit oft dit
      statement_after_order_by [of adapt cfg c2 t2 d2 s]
      statement_after_group_by [of adapt cfg c2 t2 s]
      statement_after_offset [of adapt cfg o2 s]
      statement_after_limit [of adapt cfg l2 s]
      statement_after_distinct [of adapt cfg a2 s]
    by (intro conjI refl)
qed

theorem C8_last_call_wins_witness:
  "as_string adapt_int (Select_to_sql users_catalog
     (Select_offset 40 (Select_offset 20 (Select_limit 10 (Select_limit 5
       (Select_distinct (Column ''name'') (Select_distinct (Columns [''id'', ''name''])
         (Select_init ''users''))))))))
   = ''SELECT DISTINCT \"name\" FROM \"users\"     OFFSET 40 LIMIT 10''"
proof -
  let ?s = "Select_limit (10::int) (Select_limit 5
       (Select_distinct (Column ''name'') (Select_distinct (Columns [''id'', ''name''])
         (Select_init ''users''))))"
  have "as_string adapt_int (Select_to_sql users_catalog (Select_offset 40 (Select_offset 20 ?s)))
        = ''SELECT '' @ projection_text adapt_int users_catalog ?s
         @ '' FROM '' @ quote_ident (self_table_name ?s)
         @ '' '' @ join_text adapt_int ?s
         @ '' '' @ where_text adapt_int ?s
         @ '' '' @ clause_text adapt_int (self_order_by ?s)
         @ '' '' @ clause_text adapt_int (self_group_by ?s)
         @ '' '' @ ''OFFSET '' @ adapt_int 40
         @ '' '' @ clause_text adapt_int (self_limit ?s)"
    using C8_last_call_wins [where adapt = adapt_int and cfg = users_catalog and s = ?s
        and ?o1.0 = 20 and ?o2.0 = 40]
    by blast
  also have "\<dots> = ''SELECT DISTINCT \"name\" FROM \"users\"     OFFSET 40 LIMIT 10''"
    by code_simp
  finally show ?thesis .
qed

end
